theory Spec2Isabelle
  imports Complex_Main "HOL-Library.Word" "HOL-Library.Signed_Division" "HOL-Library.Log_Nat"
begin

text \<open>
  The synthesis and mixing core of the sinetastic programs: the waveform functions
  \<open>SineWave\<close>, \<open>SquareWave\<close> and \<open>TriangleWave\<close>, the generators \<open>GenerateWave\<close>
  and \<open>GenerateSineWave\<close>, and the mixer \<open>CombineWaves\<close>. Playback and WAV files
  are outside this development.
\<close>

section \<open>Samples and run-time failures\<close>

text \<open>
  A signal is a Go slice \<open>[]int16\<close>: a list of 16-bit two's complement words. The mixer
  accumulates in \<open>int32\<close>. A run-time panic of the Go program is a value of \<open>error\<close>, and
  every function that can panic returns \<open>error + result\<close>.
\<close>

type_synonym int16 = "16 word"
type_synonym int32 = "32 word"
type_synonym int64 = "64 word"

datatype error =
    IndexOutOfRange       \<comment> \<open>\<open>wave[i]\<close> with \<open>i \<ge> len(wave)\<close>\<close>
  | MakesliceLenOutOfRange \<comment> \<open>\<open>make([]int16, n)\<close> with \<open>n < 0\<close> or \<open>n\<close> too large\<close>

definition MaxInt16 :: int where "MaxInt16 = 32767"
definition MinInt16 :: int where "MinInt16 = - 32768"

section \<open>The mixer: CombineWaves\<close>

text \<open>
  The inner loop \<open>for _, wave := range waves { sum += int32(wave[i]) }\<close>. The index
  expression panics when \<open>i\<close> is not below the length of the wave; \<open>int32(_)\<close> of an
  \<open>int16\<close> is sign extension (\<open>scast\<close>) and \<open>+=\<close> on \<open>int32\<close> wraps. The
  accumulator \<open>acc\<close> is the source's variable \<open>sum\<close>.
\<close>

fun sum_samples :: "nat \<Rightarrow> int16 list list \<Rightarrow> int32 \<Rightarrow> error + int32" where
  "sum_samples i [] acc = Inr acc"
| "sum_samples i (wave # waves) acc =
     (if i < length wave then sum_samples i waves (acc + scast (wave ! i))
      else Inl IndexOutOfRange)"

text \<open>The \<open>if sum > math.MaxInt16 ... else if sum < math.MinInt16\<close> cascade, on \<open>int32\<close>.\<close>

definition saturate :: "int32 \<Rightarrow> int32" where
  "saturate acc =
     (if word_of_int MaxInt16 <s acc then word_of_int MaxInt16
      else if acc <s word_of_int MinInt16 then word_of_int MinInt16
      else acc)"

text \<open>
  The outer loop \<open>for i := 0; i < numSamples; i++\<close>, writing \<open>combined[i] = int16(sum)\<close>;
  \<open>int16(_)\<close> of an \<open>int32\<close> keeps the low 16 bits.
\<close>

function combine_loop ::
  "nat \<Rightarrow> nat \<Rightarrow> int16 list list \<Rightarrow> int16 list \<Rightarrow> error + int16 list" where
  "combine_loop i numSamples waves combined =
     (if i < numSamples then
        (case sum_samples i waves 0 of
           Inl e \<Rightarrow> Inl e
         | Inr acc \<Rightarrow>
             combine_loop (Suc i) numSamples waves (combined[i := ucast (saturate acc)]))
      else Inr combined)"
  by pat_completeness auto
termination
  by (relation "measure (\<lambda>(i, numSamples, waves, combined). numSamples - i)") auto

declare combine_loop.simps [simp del]

text \<open>
  \<open>CombineWaves\<close> itself. A \<open>nil\<close> slice is the empty list. \<open>make([]int16, numSamples)\<close>
  is a list of \<open>numSamples\<close> zeros; \<open>waves[0]\<close> is read only after the emptiness test.
\<close>

definition CombineWaves :: "int16 list list \<Rightarrow> error + int16 list" where
  "CombineWaves waves =
     (if length waves = 0 then Inr []
      else
        let numSamples = length (waves ! 0);
            combined = replicate numSamples 0
        in combine_loop 0 numSamples waves combined)"

section \<open>Double-precision floating point\<close>

text \<open>
  A \<open>float64\<close> is a finite rational, an infinity or a not-a-number. The two zeros of
  IEEE 754 are one value here: the program never divides by a negative zero, compares
  zeros only with \<open>>=\<close> and converts them to the integer 0, so their sign is never
  observed. Each arithmetic operation computes the exact result and rounds it once, to
  the nearest value with a 53-bit significand, ties to the even significand
  (\<open>round64\<close>); the operations of one expression are not fused, as on amd64. The
  only expression a compiler could fuse is the \<open>x*y+z\<close> of \<open>angle\<close> below; every
  concrete value computed in this theory is at phase 0, where fusing changes nothing,
  and the bounds on the computed argument are those of the three separate operations.
\<close>

datatype float64 = Finite rat | PosInf | NegInf | NaN

definition pow2 :: "int \<Rightarrow> rat" where
  "pow2 e = (if 0 \<le> e then 2 ^ nat e else 1 / 2 ^ nat (- e))"

text \<open>The binary exponent of a positive rational: \<open>2 ^ ilog2 x \<le> x < 2 ^ (ilog2 x + 1)\<close>.\<close>

definition ilog2 :: "rat \<Rightarrow> int" where
  "ilog2 x =
     (let e = bitlen (fst (quotient_of x)) - bitlen (snd (quotient_of x))
      in if pow2 e \<le> x then e else e - 1)"

definition round_half_even :: "rat \<Rightarrow> int" where
  "round_half_even x =
     (let f = \<lfloor>x\<rfloor>; r = x - of_int f
      in if r < 1 / 2 then f else if 1 / 2 < r then f + 1 else if even f then f else f + 1)"

text \<open>
  The spacing of the doubles around \<open>x\<close>: 52 fraction bits below the leading bit, and
  the fixed spacing \<open>2 ^ - 1074\<close> of the subnormal range below \<open>2 ^ - 1022\<close>.
\<close>

definition ulp :: "rat \<Rightarrow> rat" where
  "ulp x = pow2 (max (ilog2 \<bar>x\<bar>) (- 1022) - 52)"

definition round64 :: "rat \<Rightarrow> float64" where
  "round64 x =
     (if x = 0 then Finite 0
      else
        let y = of_int (round_half_even (x / ulp x)) * ulp x
        in if pow2 1024 \<le> y then PosInf
           else if y \<le> - pow2 1024 then NegInf
           else Finite y)"

fun fneg :: "float64 \<Rightarrow> float64" where
  "fneg (Finite x) = Finite (- x)"
| "fneg PosInf = NegInf"
| "fneg NegInf = PosInf"
| "fneg NaN = NaN"

fun fadd :: "float64 \<Rightarrow> float64 \<Rightarrow> float64" where
  "fadd NaN _ = NaN"
| "fadd _ NaN = NaN"
| "fadd (Finite x) (Finite y) = round64 (x + y)"
| "fadd PosInf NegInf = NaN"
| "fadd NegInf PosInf = NaN"
| "fadd PosInf _ = PosInf"
| "fadd NegInf _ = NegInf"
| "fadd (Finite x) PosInf = PosInf"
| "fadd (Finite x) NegInf = NegInf"

text \<open>The sign of a product or quotient with an infinite operand.\<close>

definition signed_inf :: "bool \<Rightarrow> float64" where
  "signed_inf negative = (if negative then NegInf else PosInf)"

fun is_negative :: "float64 \<Rightarrow> bool" where
  "is_negative (Finite x) = (x < 0)"
| "is_negative NegInf = True"
| "is_negative _ = False"

fun fmul :: "float64 \<Rightarrow> float64 \<Rightarrow> float64" where
  "fmul NaN _ = NaN"
| "fmul _ NaN = NaN"
| "fmul (Finite x) (Finite y) = round64 (x * y)"
| "fmul (Finite x) b = (if x = 0 then NaN else signed_inf ((x < 0) \<noteq> is_negative b))"
| "fmul a (Finite y) = (if y = 0 then NaN else signed_inf (is_negative a \<noteq> (y < 0)))"
| "fmul a b = signed_inf (is_negative a \<noteq> is_negative b)"

fun fdiv :: "float64 \<Rightarrow> float64 \<Rightarrow> float64" where
  "fdiv NaN _ = NaN"
| "fdiv _ NaN = NaN"
| "fdiv (Finite x) (Finite y) =
     (if y = 0 then (if x = 0 then NaN else signed_inf (x < 0)) else round64 (x / y))"
| "fdiv (Finite x) b = Finite 0"
| "fdiv a (Finite y) = signed_inf (is_negative a \<noteq> (y < 0))"
| "fdiv a b = NaN"

text \<open>The comparison \<open>a >= b\<close>: false as soon as an operand is not a number.\<close>

fun fge :: "float64 \<Rightarrow> float64 \<Rightarrow> bool" where
  "fge NaN _ = False"
| "fge _ NaN = False"
| "fge (Finite x) (Finite y) = (y \<le> x)"
| "fge PosInf _ = True"
| "fge _ NegInf = True"
| "fge _ _ = False"

text \<open>\<open>float64(n)\<close> of an integer: the nearest double.\<close>

definition float64_of_int :: "int \<Rightarrow> float64" where
  "float64_of_int n = round64 (of_int n)"

text \<open>
  The constants of the program. Go evaluates a constant expression exactly and rounds
  it when it becomes a \<open>float64\<close>; \<open>math_Pi\<close> is the decimal literal of package
  \<open>math\<close>.
\<close>

definition math_Pi :: rat where
  "math_Pi = 314159265358979323846264338327950288419716939937510582097494459 / 10 ^ 62"

definition Pi64 :: float64 where "Pi64 = round64 math_Pi"
definition TwoPi64 :: float64 where "TwoPi64 = round64 (2 * math_Pi)"

text \<open>
  What the program takes from outside its own text: the functions \<open>math.Sin\<close> and
  \<open>math.Asin\<close> of the standard library, and the results of converting a float that
  the integer type cannot represent, which the language leaves to the implementation.
\<close>

record go_env =
  math_Sin :: "float64 \<Rightarrow> float64"
  math_Asin :: "float64 \<Rightarrow> float64"
  int16_unrepresentable :: "float64 \<Rightarrow> int16"
  int_unrepresentable :: "float64 \<Rightarrow> int64"

text \<open>
  Conversion of a float to an integer discards the fraction. \<open>int\<close> has 64 bits.
\<close>

definition discard_fraction :: "rat \<Rightarrow> int" where
  "discard_fraction x = (if 0 \<le> x then \<lfloor>x\<rfloor> else \<lceil>x\<rceil>)"

fun int16_of_float64 :: "go_env \<Rightarrow> float64 \<Rightarrow> int16" where
  "int16_of_float64 env (Finite x) =
     (if MinInt16 \<le> discard_fraction x \<and> discard_fraction x \<le> MaxInt16
      then word_of_int (discard_fraction x)
      else int16_unrepresentable env (Finite x))"
| "int16_of_float64 env v = int16_unrepresentable env v"

fun int_of_float64 :: "go_env \<Rightarrow> float64 \<Rightarrow> int64" where
  "int_of_float64 env (Finite x) =
     (if - (2 ^ 63) \<le> discard_fraction x \<and> discard_fraction x < 2 ^ 63
      then word_of_int (discard_fraction x)
      else int_unrepresentable env (Finite x))"
| "int_of_float64 env v = int_unrepresentable env v"

section \<open>Durations\<close>

text \<open>
  A \<open>time.Duration\<close> is an \<open>int64\<close> count of nanoseconds. \<open>Seconds\<close> is the method
  of package \<open>time\<close>: \<open>sec := d / Second; nsec := d % Second;
  return float64(sec) + float64(nsec)/1e9\<close>. Go's division truncates and its remainder
  has the sign of the dividend (\<open>sdiv\<close>, \<open>smod\<close>); dividing an \<open>int64\<close> by \<open>Second\<close>
  cannot overflow, so both are taken on the signed value.
\<close>

definition Second :: int where "Second = 1000000000"

definition Seconds :: "int64 \<Rightarrow> float64" where
  "Seconds d =
     (let sec = sint d sdiv Second; nsec = sint d smod Second
      in fadd (float64_of_int sec) (fdiv (float64_of_int nsec) (round64 1000000000)))"

section \<open>Waveforms\<close>

type_synonym Waveform = "float64 \<Rightarrow> float64 \<Rightarrow> float64 \<Rightarrow> float64 \<Rightarrow> float64"

text \<open>The argument \<open>2.0*math.Pi*frequency*t+phase\<close>, evaluated left to right.\<close>

definition angle :: "float64 \<Rightarrow> float64 \<Rightarrow> float64 \<Rightarrow> float64" where
  "angle t frequency phase = fadd (fmul (fmul TwoPi64 frequency) t) phase"

definition SineWave :: "go_env \<Rightarrow> Waveform" where
  "SineWave env t frequency amplitude phase =
     fmul amplitude (math_Sin env (angle t frequency phase))"

definition SquareWave :: "go_env \<Rightarrow> Waveform" where
  "SquareWave env t frequency amplitude phase =
     (if fge (math_Sin env (angle t frequency phase)) (Finite 0) then amplitude
      else fneg amplitude)"

definition TriangleWave :: "go_env \<Rightarrow> Waveform" where
  "TriangleWave env t frequency amplitude phase =
     fmul (fdiv (fmul (Finite 2) amplitude) Pi64)
          (math_Asin env (math_Sin env (angle t frequency phase)))"

section \<open>The synthesizer: GenerateWave and GenerateSineWave\<close>

text \<open>
  The loop \<open>for i := 0; i < numSamples; i++\<close> of \<open>GenerateWave\<close>: the time of sample
  \<open>i\<close> is \<open>float64(i) / float64(sampleRate)\<close>, and the value of the waveform there is
  converted by \<open>int16(sample)\<close>.
\<close>

function generate_loop ::
  "go_env \<Rightarrow> Waveform \<Rightarrow> float64 \<Rightarrow> float64 \<Rightarrow> float64 \<Rightarrow> int64 \<Rightarrow> nat \<Rightarrow> nat \<Rightarrow>
   int16 list \<Rightarrow> int16 list" where
  "generate_loop env waveFunc frequency amplitude phase sampleRate i numSamples wave =
     (if i < numSamples then
        let t = fdiv (float64_of_int (int i)) (float64_of_int (sint sampleRate));
            sample = waveFunc t frequency amplitude phase
        in generate_loop env waveFunc frequency amplitude phase sampleRate (Suc i) numSamples
             (wave[i := int16_of_float64 env sample])
      else wave)"
  by pat_completeness auto
termination
  by (relation "measure (\<lambda>(env, waveFunc, frequency, amplitude, phase, sampleRate, i,
        numSamples, wave). numSamples - i)") auto

declare generate_loop.simps [simp del]

text \<open>
  \<open>make([]int16, n)\<close> is \<open>runtime.makeslice\<close>: it panics with \<open>len out of range\<close> when
  the length is negative or when the memory of the elements, two bytes each, exceeds
  \<open>maxAlloc\<close>, which is \<open>2 ^ 48\<close> bytes on linux/amd64; otherwise it returns \<open>n\<close>
  zeros. A request within \<open>maxAlloc\<close> that the machine cannot back ends the process
  from outside the program and is not a run of this model.
\<close>

definition maxAlloc :: int where "maxAlloc = 2 ^ 48"

definition makeslice_int16 :: "int \<Rightarrow> error + int16 list" where
  "makeslice_int16 n =
     (if n < 0 \<or> maxAlloc < 2 * n then Inl MakesliceLenOutOfRange
      else Inr (replicate (nat n) 0))"

text \<open>\<open>GenerateWave\<close>: the sample count, the slice, the loop.\<close>

definition GenerateWave ::
  "go_env \<Rightarrow> Waveform \<Rightarrow> float64 \<Rightarrow> float64 \<Rightarrow> float64 \<Rightarrow> int64 \<Rightarrow> int64 \<Rightarrow>
   error + int16 list" where
  "GenerateWave env waveFunc frequency amplitude phase sampleRate duration =
     (let numSamples =
            int_of_float64 env (fmul (Seconds duration) (float64_of_int (sint sampleRate)))
      in case makeslice_int16 (sint numSamples) of
           Inl e \<Rightarrow> Inl e
         | Inr wave \<Rightarrow>
             Inr (generate_loop env waveFunc frequency amplitude phase sampleRate
                    0 (nat (sint numSamples)) wave))"

text \<open>
  \<open>GenerateSineWave\<close> of the two players: the sample count multiplies in the other
  order, the amplitude is \<open>float64(math.MaxInt16)\<close> and there is no phase.
\<close>

function sine_loop ::
  "go_env \<Rightarrow> float64 \<Rightarrow> int64 \<Rightarrow> nat \<Rightarrow> nat \<Rightarrow> int16 list \<Rightarrow> int16 list" where
  "sine_loop env freq sampleRate i numSamples sineWave =
     (if i < numSamples then
        let t = fdiv (float64_of_int (int i)) (float64_of_int (sint sampleRate));
            amplitude = MaxInt16
        in sine_loop env freq sampleRate (Suc i) numSamples
             (sineWave[i := int16_of_float64 env
                (fmul (float64_of_int amplitude)
                      (math_Sin env (fmul (fmul TwoPi64 freq) t)))])
      else sineWave)"
  by pat_completeness auto
termination
  by (relation "measure (\<lambda>(env, freq, sampleRate, i, numSamples, sineWave). numSamples - i)")
     auto

declare sine_loop.simps [simp del]

definition GenerateSineWave :: "go_env \<Rightarrow> float64 \<Rightarrow> int64 \<Rightarrow> int64 \<Rightarrow> error + int16 list" where
  "GenerateSineWave env freq sampleRate duration =
     (let numSamples =
            int_of_float64 env (fmul (float64_of_int (sint sampleRate)) (Seconds duration))
      in case makeslice_int16 (sint numSamples) of
           Inl e \<Rightarrow> Inl e
         | Inr sineWave \<Rightarrow>
             Inr (sine_loop env freq sampleRate 0 (nat (sint numSamples)) sineWave))"

section \<open>An environment to run the model on\<close>

text \<open>
  The theorems below hold for every \<open>go_env\<close>. To evaluate the model at concrete
  inputs, \<open>example_env\<close> computes the sine by its Taylor polynomial up to \<open>x ^ 13\<close> and
  the arc sine by its Taylor polynomial up to \<open>x ^ 5\<close>, each rounded once, and converts
  an unrepresentable finite value by keeping the low bits of its integer part.
\<close>

definition sin_poly :: "rat \<Rightarrow> rat" where
  "sin_poly x =
     x - x ^ 3 / 6 + x ^ 5 / 120 - x ^ 7 / 5040 + x ^ 9 / 362880 - x ^ 11 / 39916800
       + x ^ 13 / 6227020800"

definition asin_poly :: "rat \<Rightarrow> rat" where
  "asin_poly x = x + x ^ 3 / 6 + 3 * x ^ 5 / 40"

fun rounded :: "(rat \<Rightarrow> rat) \<Rightarrow> float64 \<Rightarrow> float64" where
  "rounded f (Finite x) = round64 (f x)"
| "rounded f v = NaN"

fun low_bits :: "float64 \<Rightarrow> 'a::len word" where
  "low_bits (Finite x) = word_of_int (discard_fraction x)"
| "low_bits v = 0"

definition example_env :: go_env where
  "example_env =
     \<lparr>math_Sin = rounded sin_poly, math_Asin = rounded asin_poly,
      int16_unrepresentable = low_bits, int_unrepresentable = low_bits\<rparr>"

section \<open>Properties of the mixer\<close>

subsection \<open>The inner and the outer loop\<close>

lemma sum_samples_Inr:
  "\<forall>w \<in> set waves. i < length w \<Longrightarrow>
   sum_samples i waves acc = Inr (acc + (\<Sum>w\<leftarrow>waves. scast (w ! i)))"
  by (induction waves arbitrary: acc) (simp_all add: add.assoc)

lemma sum_samples_Inl:
  "\<exists>w \<in> set waves. length w \<le> i \<Longrightarrow> sum_samples i waves acc = Inl IndexOutOfRange"
  by (induction waves arbitrary: acc) auto

lemma combine_loop_Inr:
  "\<forall>w \<in> set waves. n \<le> length w \<Longrightarrow> length combined = n \<Longrightarrow> i \<le> n \<Longrightarrow>
   combine_loop i n waves combined =
     Inr (take i combined @ map (\<lambda>j. ucast (saturate (\<Sum>w\<leftarrow>waves. scast (w ! j)))) [i..<n])"
proof (induction i n waves combined rule: combine_loop.induct)
  case (1 i n waves combined)
  show ?case
  proof (cases "i < n")
    case True
    then have all: "\<forall>w \<in> set waves. i < length w" using "1.prems"(1) by auto
    let ?v = "ucast (saturate (\<Sum>w\<leftarrow>waves. scast (w ! i))) :: int16"
    have s: "sum_samples i waves 0 = Inr (\<Sum>w\<leftarrow>waves. scast (w ! i))"
      using sum_samples_Inr [OF all, of 0] by simp
    have "combine_loop i n waves combined = combine_loop (Suc i) n waves (combined[i := ?v])"
      using True s by (subst combine_loop.simps) simp
    also have "\<dots> = Inr (take (Suc i) (combined[i := ?v]) @
        map (\<lambda>j. ucast (saturate (\<Sum>w\<leftarrow>waves. scast (w ! j)))) [Suc i..<n])"
      using "1.IH" [OF True s] "1.prems" True by simp
    also have "take (Suc i) (combined[i := ?v]) = take i combined @ [?v]"
      using True "1.prems"(2) by (simp add: take_Suc_conv_app_nth)
    finally show ?thesis using True by (simp add: upt_conv_Cons)
  next
    case False
    then have "i = n" using "1.prems" by simp
    then show ?thesis using "1.prems" by (subst combine_loop.simps) simp
  qed
qed

lemma combine_loop_Inl:
  "\<exists>w \<in> set waves. length w < n \<and> i \<le> length w \<Longrightarrow>
   combine_loop i n waves combined = Inl IndexOutOfRange"
proof (induction i n waves combined rule: combine_loop.induct)
  case (1 i n waves combined)
  from "1.prems" obtain w where w: "w \<in> set waves" "length w < n" "i \<le> length w" by blast
  then have lt: "i < n" by simp
  show ?case
  proof (cases "sum_samples i waves 0")
    case (Inl e)
    have "\<exists>w \<in> set waves. length w \<le> i"
    proof (rule ccontr)
      assume "\<not> ?thesis"
      then have "\<forall>w \<in> set waves. i < length w" by auto
      from sum_samples_Inr [OF this, of 0] Inl show False by simp
    qed
    from sum_samples_Inl [OF this, of 0] Inl have "e = IndexOutOfRange" by simp
    then show ?thesis using lt Inl by (subst combine_loop.simps) simp
  next
    case (Inr acc)
    have "i \<noteq> length w"
    proof
      assume "i = length w"
      then have "\<exists>w \<in> set waves. length w \<le> i" using w by auto
      from sum_samples_Inl [OF this, of 0] Inr show False by simp
    qed
    then have "\<exists>w \<in> set waves. length w < n \<and> Suc i \<le> length w" using w by auto
    from "1.IH" [OF lt Inr this] show ?thesis using lt Inr by (subst combine_loop.simps) simp
  qed
qed

subsection \<open>Widening, saturating and narrowing\<close>

lemma sint_narrow:
  "sint (ucast (x :: int32) :: int16) = signed_take_bit 15 (sint x)"
proof -
  have "sint (ucast x :: int16) = signed_take_bit 15 (uint x)"
    by (simp add: signed_ucast_eq)
  also have "\<dots> = signed_take_bit 15 (signed_take_bit 31 (uint x))"
    by simp
  also have "signed_take_bit 31 (uint x) = sint x"
    by (simp add: sint_uint)
  finally show ?thesis .
qed

lemma sint_narrow_in_range:
  "MinInt16 \<le> sint (x :: int32) \<Longrightarrow> sint x \<le> MaxInt16 \<Longrightarrow> sint (ucast x :: int16) = sint x"
  unfolding sint_narrow MinInt16_def MaxInt16_def
  by (rule signed_take_bit_int_eq_self) simp_all

lemma sint_saturate32:
  "sint (saturate x) = max MinInt16 (min MaxInt16 (sint x))"
  unfolding saturate_def MaxInt16_def MinInt16_def
  by (simp add: word_sless_alt)

lemma sint_saturate:
  "sint (ucast (saturate x) :: int16) = max MinInt16 (min MaxInt16 (sint x))"
proof -
  have "MinInt16 \<le> sint (saturate x)" "sint (saturate x) \<le> MaxInt16"
    unfolding sint_saturate32 by (simp_all add: MinInt16_def MaxInt16_def)
  from sint_narrow_in_range [OF this] show ?thesis by (simp add: sint_saturate32)
qed

lemma scast_sum_list:
  "(\<Sum>w\<leftarrow>waves. (scast (w ! i :: int16) :: int32)) = word_of_int (\<Sum>w\<leftarrow>waves. sint (w ! i))"
proof (induction waves)
  case Nil
  show ?case by simp
next
  case (Cons w waves)
  have "(scast (w ! i) :: int32) = word_of_int (sint (w ! i))" by (rule scast_eq)
  then show ?case using Cons by simp
qed

lemma sint_sample_bounds: "- 32768 \<le> sint (x :: int16)" "sint (x :: int16) \<le> 32767"
  using sint_ge [of x] sint_lt [of x] by simp_all

lemma sum_sint_bounds:
  "- 32768 * int (length waves) \<le> (\<Sum>w\<leftarrow>waves. sint (w ! i :: int16)) \<and>
   (\<Sum>w\<leftarrow>waves. sint (w ! i :: int16)) \<le> 32767 * int (length waves)"
proof (induction waves)
  case Nil
  then show ?case by simp
next
  case (Cons w waves)
  then show ?case using sint_sample_bounds [of "w ! i"] by (simp add: algebra_simps)
qed

lemma sint_sum_list:
  assumes "length waves \<le> 65536"
  shows "sint (\<Sum>w\<leftarrow>waves. (scast (w ! i :: int16) :: int32)) = (\<Sum>w\<leftarrow>waves. sint (w ! i))"
proof -
  let ?k = "\<Sum>w\<leftarrow>waves. sint (w ! i)"
  have "- 2147483648 \<le> ?k" "?k < 2147483648"
    using sum_sint_bounds [of waves i] assms by linarith+
  then have "sint (word_of_int ?k :: int32) = ?k"
    by (simp add: sint_sbintrunc' signed_take_bit_int_eq_self)
  then show ?thesis by (simp add: scast_sum_list)
qed

subsection \<open>CombineWaves as a whole\<close>

lemma CombineWaves_Inr:
  assumes "waves \<noteq> []" and "\<forall>w \<in> set waves. length (waves ! 0) \<le> length w"
  shows "CombineWaves waves =
     Inr (map (\<lambda>i. ucast (saturate (\<Sum>w\<leftarrow>waves. scast (w ! i)))) [0..<length (waves ! 0)])"
  using assms combine_loop_Inr [of waves "length (waves ! 0)" "replicate (length (waves ! 0)) 0" 0]
  by (simp add: CombineWaves_def)

lemma CombineWaves_Inl:
  assumes "\<exists>w \<in> set waves. length w < length (waves ! 0)"
  shows "CombineWaves waves = Inl IndexOutOfRange"
proof -
  from assms have "waves \<noteq> []" by auto
  moreover have "\<exists>w \<in> set waves. length w < length (waves ! 0) \<and> 0 \<le> length w"
    using assms by simp
  ultimately show ?thesis
    using combine_loop_Inl [of waves "length (waves ! 0)" 0] by (simp add: CombineWaves_def)
qed

lemma sum_list_take_cong:
  "i < n \<Longrightarrow>
   (\<Sum>w\<leftarrow>waves. (scast (take n w ! i :: int16) :: int32)) = (\<Sum>w\<leftarrow>waves. scast (w ! i))"
  by (induction waves) simp_all

lemma CombineWaves_take:
  assumes "waves \<noteq> []"
  shows "CombineWaves (map (take (length (waves ! 0))) waves) = CombineWaves waves"
proof -
  let ?n = "length (waves ! 0)"
  let ?ts = "map (take ?n) waves"
  have ne: "?ts \<noteq> []" using assms by simp
  have n: "length (?ts ! 0) = ?n" using assms by (cases waves) simp_all
  show ?thesis
  proof (cases "\<forall>w \<in> set waves. ?n \<le> length w")
    case True
    then have "\<forall>w \<in> set ?ts. length (?ts ! 0) \<le> length w" unfolding n by auto
    from CombineWaves_Inr [OF ne this] CombineWaves_Inr [OF assms True]
    show ?thesis unfolding n by (simp add: sum_list_take_cong o_def)
  next
    case False
    then obtain w where w: "w \<in> set waves" "length w < ?n" by force
    have "take ?n w \<in> set ?ts" using w(1) by (simp only: set_map) (rule imageI)
    moreover have "length (take ?n w) < length (?ts ! 0)" unfolding n using w(2) by simp
    ultimately have "\<exists>w \<in> set ?ts. length w < length (?ts ! 0)" by blast
    from CombineWaves_Inl [OF this]
    have a: "CombineWaves ?ts = Inl IndexOutOfRange" .
    have "\<exists>w \<in> set waves. length w < ?n" using w by blast
    from CombineWaves_Inl [OF this] a show ?thesis by simp
  qed
qed


text \<open>
  Claim C1. For a non-empty sequence of signals that all have length \<open>n\<close>,
  \<open>CombineWaves\<close> returns a signal of length \<open>n\<close>. Sample \<open>i\<close> of it is the \<open>int32\<close>
  sum of the sign-extended input samples, saturated and then narrowed to \<open>int16\<close>. With
  at most 65536 signals the \<open>int32\<close> sum cannot overflow, and the sample is the
  mathematical sum clamped to \<open>[-32768, 32767]\<close>. In particular, for two signals \<open>a\<close>
  and \<open>b\<close> (two in-phase signals of maximal amplitude among them), a sample whose sum
  reaches 32767 comes out as exactly 32767, and a non-negative sum never comes out
  negative.
\<close>

theorem CombineWaves_saturating_sum:
  assumes "waves \<noteq> []" and "\<forall>w \<in> set waves. length w = n"
  shows "\<exists>combined. CombineWaves waves = Inr combined \<and> length combined = n \<and>
    (\<forall>i<n.
       combined ! i = ucast (saturate (\<Sum>w\<leftarrow>waves. scast (w ! i))) \<and>
       (length waves \<le> 65536 \<longrightarrow>
          sint (combined ! i) = max MinInt16 (min MaxInt16 (\<Sum>w\<leftarrow>waves. sint (w ! i)))) \<and>
       (waves = [a, b] \<and> MaxInt16 \<le> sint (a ! i) + sint (b ! i) \<longrightarrow>
          sint (combined ! i) = MaxInt16) \<and>
       (waves = [a, b] \<and> 0 \<le> sint (a ! i) + sint (b ! i) \<longrightarrow> 0 \<le> sint (combined ! i)))"
proof -
  have n: "length (waves ! 0) = n" using assms by (cases waves) simp_all
  let ?c = "map (\<lambda>i. ucast (saturate (\<Sum>w\<leftarrow>waves. scast (w ! i))) :: int16) [0..<n]"
  have c: "CombineWaves waves = Inr ?c"
    using CombineWaves_Inr [OF assms(1)] assms(2) n by simp
  have "sint (?c ! i) = max MinInt16 (min MaxInt16 (\<Sum>w\<leftarrow>waves. sint (w ! i)))"
    if "i < n" "length waves \<le> 65536" for i
    using that by (simp add: sint_saturate sint_sum_list)
  moreover have "sint (?c ! i) = MaxInt16"
    if "i < n" "waves = [a, b]" "MaxInt16 \<le> sint (a ! i) + sint (b ! i)" for i
    using that sint_sum_list [of waves i] by (simp add: sint_saturate MaxInt16_def MinInt16_def)
  moreover have "0 \<le> sint (?c ! i)"
    if "i < n" "waves = [a, b]" "0 \<le> sint (a ! i) + sint (b ! i)" for i
    using that sint_sum_list [of waves i] by (simp add: sint_saturate MaxInt16_def MinInt16_def)
  ultimately show ?thesis unfolding c by simp
qed

text \<open>
  The theorem at two signals that peak at both ends of the range: the peaks are clamped
  to 32767 and to -32768, the other samples are plain sums.
\<close>

theorem CombineWaves_saturating_sum_witness:
  "CombineWaves [[32767, 100, - 32768, 0], [32767, 200, - 32768, 0]] = Inr [32767, 300, - 32768, 0]"
proof -
  let ?a = "[32767, 100, - 32768, 0] :: int16 list"
  let ?b = "[32767, 200, - 32768, 0] :: int16 list"
  have h1: "[?a, ?b] \<noteq> []" by simp
  have h2: "\<forall>w \<in> set [?a, ?b]. length w = 4" by simp
  from CombineWaves_saturating_sum [OF h1 h2, of ?a ?b]
  obtain c where c: "CombineWaves [?a, ?b] = Inr c" "length c = 4"
    and s: "\<forall>i<4. sint (c ! i) = max MinInt16 (min MaxInt16 (\<Sum>w\<leftarrow>[?a, ?b]. sint (w ! i)))"
    by auto
  have "sint (c ! 0) = 32767" "sint (c ! 1) = 300" "sint (c ! 2) = - 32768" "sint (c ! 3) = 0"
    using s by (simp_all add: MinInt16_def MaxInt16_def)
  then have "c ! 0 = 32767" "c ! 1 = 300" "c ! 2 = - 32768" "c ! 3 = 0"
    by (simp_all add: signed_word_eqI)
  then have "c = [32767, 300, - 32768, 0]"
    using c(2) by (auto simp: list_eq_iff_nth_eq nth_Cons' less_Suc_eq numeral_eq_Suc)
  then show ?thesis using c(1) by simp
qed

text \<open>
  The bound on the number of signals is needed for the exact sum: 65539 signals at
  32767 sum to more than \<open>int32\<close> holds, the accumulator wraps to a negative value,
  and the result is clamped to -32768.
\<close>

lemma CombineWaves_int32_sum_wraps:
  "CombineWaves (replicate 65539 [32767]) = Inr [- 32768]"
proof -
  let ?waves = "replicate 65539 [32767 :: int16]"
  have ne: "?waves \<noteq> []" by simp
  have len: "\<forall>w \<in> set ?waves. length (?waves ! 0) \<le> length w" by simp
  have "(\<Sum>w\<leftarrow>?waves. (scast (w ! 0) :: int32)) = of_nat 65539 * scast (32767 :: int16)"
    by (simp only: map_replicate sum_list_replicate nth_Cons_0)
  also have "\<dots> = - 2147450883" by simp
  finally have s: "(\<Sum>w\<leftarrow>?waves. (scast (w ! 0) :: int32)) = - 2147450883" .
  have "saturate (- 2147450883) = - 32768"
    by (simp add: saturate_def MaxInt16_def MinInt16_def word_sless_alt)
  then have "(ucast (saturate (\<Sum>w\<leftarrow>?waves. scast (w ! 0))) :: int16) = - 32768"
    unfolding s by simp
  then have "map (\<lambda>i. ucast (saturate (\<Sum>w\<leftarrow>?waves. scast (w ! i))) :: int16) [0..<1] =
             [- 32768]" by simp
  then show ?thesis
    unfolding CombineWaves_Inr [OF ne len] by simp
qed

text \<open>
  Claim C9. \<open>CombineWaves\<close> of no signals returns the empty signal; it does not fail.
\<close>

theorem CombineWaves_empty: "CombineWaves [] = Inr []"
  by (simp add: CombineWaves_def)

text \<open>
  Claim C7 says that signals of differing lengths make \<open>CombineWaves\<close> fail fast and
  that no sample is silently dropped. The function has no length check: a second signal
  longer than the first is accepted and its last sample is ignored.
\<close>

theorem CombineWaves_mismatch_counterexample:
  "length [1 :: int16] \<noteq> length [2 :: int16, 3] \<and> CombineWaves [[1], [2, 3]] = Inr [3]"
  by (simp add: CombineWaves_def combine_loop.simps saturate_def MaxInt16_def MinInt16_def)

text \<open>
  Claim C7, as the code has it. \<open>CombineWaves\<close> has no length check. It fails, with an
  index out of range, exactly when some signal is shorter than the first one. When every
  signal is at least as long as the first one it returns the signal whose sample \<open>i\<close>,
  for \<open>i\<close> below the length of the first signal, is the saturated sum of the samples
  \<open>i\<close> of all signals: the samples of a longer signal from the length of the first one
  onwards are never read, and cutting every signal down to that length leaves the result
  as it is.
\<close>

theorem CombineWaves_fail_fast_iff_shorter:
  assumes "waves \<noteq> []"
  shows "(CombineWaves waves = Inl IndexOutOfRange \<longleftrightarrow>
            (\<exists>w \<in> set waves. length w < length (waves ! 0))) \<and>
         ((\<forall>w \<in> set waves. length (waves ! 0) \<le> length w) \<longrightarrow>
            CombineWaves waves =
              Inr (map (\<lambda>i. ucast (saturate (\<Sum>w\<leftarrow>waves. scast (w ! i))))
                     [0..<length (waves ! 0)]) \<and>
            CombineWaves (map (take (length (waves ! 0))) waves) = CombineWaves waves)"
proof -
  have "CombineWaves waves \<noteq> Inl IndexOutOfRange"
    if "\<not> (\<exists>w \<in> set waves. length w < length (waves ! 0))"
  proof -
    from that have "\<forall>w \<in> set waves. length (waves ! 0) \<le> length w" by (simp add: not_less)
    with CombineWaves_Inr [OF assms] show ?thesis by simp
  qed
  then show ?thesis
    using CombineWaves_Inl [of waves] CombineWaves_Inr [OF assms] CombineWaves_take [OF assms]
    by blast
qed

text \<open>
  A shorter second signal fails. A longer second signal does not: \<open>[[1], [2, 3]]\<close> and
  \<open>[[1], [2, 3, 4]]\<close> both give \<open>[3]\<close>, as does \<open>[[1], [2]]\<close>.
\<close>

theorem CombineWaves_fail_fast_iff_shorter_witness:
  "CombineWaves [[1, 2], [3]] = Inl IndexOutOfRange \<and>
   CombineWaves [[1], [2, 3]] = Inr [3] \<and>
   CombineWaves [[1], [2, 3, 4]] = Inr [3] \<and>
   CombineWaves [[1], [2]] = CombineWaves [[1], [2, 3]]"
proof -
  have a: "[[1, 2], [3 :: int16]] \<noteq> []" and b: "[[1], [2, 3 :: int16]] \<noteq> []"
    and c: "[[1], [2, 3, 4 :: int16]] \<noteq> []" by simp_all
  from CombineWaves_fail_fast_iff_shorter [OF a]
  have 1: "CombineWaves [[1, 2], [3]] = Inl IndexOutOfRange" by simp
  from CombineWaves_fail_fast_iff_shorter [OF b]
  have 2: "CombineWaves [[1], [2, 3]] = Inr [3] \<and>
      CombineWaves [[1], [2]] = CombineWaves [[1], [2, 3]]"
    by (simp add: saturate_def MaxInt16_def MinInt16_def)
  from CombineWaves_fail_fast_iff_shorter [OF c]
  have 3: "CombineWaves [[1], [2, 3, 4]] = Inr [3]"
    by (simp add: saturate_def MaxInt16_def MinInt16_def)
  from 1 2 3 show ?thesis by blast
qed

text \<open>
  Claim C10. Take two non-empty sequences of signals whose first signals both have
  length \<open>n\<close> and which agree on the first \<open>n\<close> samples of every signal. Then
  \<open>CombineWaves\<close> does the same on both: what lies beyond the first \<open>n\<close> samples of a
  signal has no effect. A signal that \<open>CombineWaves\<close> returns has length \<open>n\<close>, and it
  does return one when no signal is shorter than the first.
\<close>

theorem CombineWaves_first_length:
  assumes "waves \<noteq> []" and "waves' \<noteq> []"
    and "length (waves ! 0) = n" and "length (waves' ! 0) = n"
    and "map (take n) waves' = map (take n) waves"
  shows "CombineWaves waves' = CombineWaves waves \<and>
         (\<forall>combined. CombineWaves waves = Inr combined \<longrightarrow> length combined = n) \<and>
         ((\<forall>w \<in> set waves. n \<le> length w) \<longrightarrow> (\<exists>combined. CombineWaves waves = Inr combined))"
proof -
  have "CombineWaves waves' = CombineWaves (map (take n) waves')"
    using CombineWaves_take [OF assms(2)] assms(4) by simp
  also have "\<dots> = CombineWaves waves"
    using CombineWaves_take [OF assms(1)] assms(3,5) by simp
  finally have 1: "CombineWaves waves' = CombineWaves waves" .
  have 2: "length combined = n" if "CombineWaves waves = Inr combined" for combined
  proof (cases "\<forall>w \<in> set waves. n \<le> length w")
    case True
    with CombineWaves_Inr [OF assms(1)] assms(3) that show ?thesis by auto
  next
    case False
    then have "\<exists>w \<in> set waves. length w < length (waves ! 0)" using assms(3) by force
    from CombineWaves_Inl [OF this] that show ?thesis by simp
  qed
  have 3: "\<exists>combined. CombineWaves waves = Inr combined" if "\<forall>w \<in> set waves. n \<le> length w"
    using CombineWaves_Inr [OF assms(1)] assms(3) that by simp
  from 1 2 3 show ?thesis by blast
qed

text \<open>
  Two sequences that differ only beyond the length of their first signal.
\<close>

theorem CombineWaves_first_length_witness:
  "CombineWaves [[1, 2], [3, 4, 9]] = CombineWaves [[1, 2], [3, 4, 5]] \<and>
   (\<exists>combined. CombineWaves [[1, 2], [3, 4, 5]] = Inr combined \<and> length combined = 2)"
proof -
  have a: "[[1, 2], [3, 4, 5 :: int16]] \<noteq> []" and b: "[[1, 2], [3, 4, 9 :: int16]] \<noteq> []"
    by simp_all
  have c: "length ([[1, 2], [3, 4, 5 :: int16]] ! 0) = 2"
    and d: "length ([[1, 2], [3, 4, 9 :: int16]] ! 0) = 2" by simp_all
  have e: "map (take 2) [[1, 2], [3, 4, 9 :: int16]] = map (take 2) [[1, 2], [3, 4, 5]]"
    by simp
  have f: "\<forall>w \<in> set [[1, 2], [3, 4, 5 :: int16]]. 2 \<le> length w" by simp
  from CombineWaves_first_length [OF a b c d e] f show ?thesis by blast
qed

section \<open>Properties of rounding\<close>

subsection \<open>Powers of two and the binary exponent\<close>

lemma pow2_powi: "pow2 e = 2 powi e"
  by (simp add: pow2_def power_int_def inverse_eq_divide power_one_over)

lemma pow2_pos: "0 < pow2 e"
  by (simp add: pow2_powi)

lemma pow2_add: "pow2 (a + b) = pow2 a * pow2 b"
  by (simp add: pow2_powi power_int_add)

lemma pow2_less_iff: "pow2 a < pow2 b \<longleftrightarrow> a < b"
  unfolding pow2_powi
  by (metis less_le_not_le linorder_not_less one_less_numeral_iff power_int_increasing
      power_int_strict_increasing semiring_norm(76) order_less_imp_le)

lemma pow2_le_iff: "pow2 a \<le> pow2 b \<longleftrightarrow> a \<le> b"
  using pow2_less_iff [of b a] by (simp add: not_less [symmetric])

lemma pow2_of_nat: "pow2 (int n) = 2 ^ n"
  by (simp add: pow2_def)

lemma ilog2_bounds:
  assumes "0 < x"
  shows "pow2 (ilog2 x) \<le> x \<and> x < pow2 (ilog2 x + 1)"
proof -
  obtain p q where pq: "quotient_of x = (p, q)" by (cases "quotient_of x")
  then have q: "0 < q" and x: "x = of_int p / of_int q"
    by (simp_all add: quotient_of_denom_pos quotient_of_div)
  from assms q x have p: "0 < p" by (simp add: zero_less_divide_iff)
  let ?e = "bitlen p - bitlen q"
  have bp: "2 ^ nat (bitlen p - 1) \<le> p" "p < 2 ^ nat (bitlen p)"
    using bitlen_bounds [OF p] by simp_all
  have bq: "2 ^ nat (bitlen q - 1) \<le> q" "q < 2 ^ nat (bitlen q)"
    using bitlen_bounds [OF q] by simp_all
  have p1: "1 \<le> bitlen p" and q1: "1 \<le> bitlen q"
    using p q by (simp_all add: bitlen_alt_def)
  have P: "pow2 (bitlen p - 1) \<le> of_int p" "of_int p < pow2 (bitlen p)"
  proof -
    have "(of_int (2 ^ nat (bitlen p - 1)) :: rat) \<le> of_int p" using bp(1) by (simp only: of_int_le_iff)
    then show "pow2 (bitlen p - 1) \<le> of_int p" using p1 by (simp add: pow2_def)
    have "(of_int p :: rat) < of_int (2 ^ nat (bitlen p))" using bp(2) by (simp only: of_int_less_iff)
    then show "of_int p < pow2 (bitlen p)" using p1 by (simp add: pow2_def)
  qed
  have Q: "pow2 (bitlen q - 1) \<le> of_int q" "of_int q < pow2 (bitlen q)"
  proof -
    have "(of_int (2 ^ nat (bitlen q - 1)) :: rat) \<le> of_int q" using bq(1) by (simp only: of_int_le_iff)
    then show "pow2 (bitlen q - 1) \<le> of_int q" using q1 by (simp add: pow2_def)
    have "(of_int q :: rat) < of_int (2 ^ nat (bitlen q))" using bq(2) by (simp only: of_int_less_iff)
    then show "of_int q < pow2 (bitlen q)" using q1 by (simp add: pow2_def)
  qed
  have qpos: "(0::rat) < of_int q" using q by simp
  have up: "x < pow2 (?e + 1)"
  proof -
    have "of_int p < pow2 (?e + 1) * pow2 (bitlen q - 1)"
      using P(2) by (simp add: pow2_add [symmetric])
    also have "\<dots> \<le> pow2 (?e + 1) * of_int q"
      using Q(1) pow2_pos [of "?e + 1"] by (simp add: mult_left_mono)
    finally show ?thesis using qpos by (simp add: x pos_divide_less_eq)
  qed
  have lo: "pow2 (?e - 1) \<le> x"
  proof -
    have "pow2 (?e - 1) * of_int q \<le> pow2 (?e - 1) * pow2 (bitlen q)"
      using Q(2) pow2_pos [of "?e - 1"] by (simp add: mult_left_mono)
    also have "\<dots> = pow2 (bitlen p - 1)" by (simp add: pow2_add [symmetric])
    also have "\<dots> \<le> of_int p" by (rule P(1))
    finally show ?thesis using qpos by (simp add: x pos_le_divide_eq)
  qed
  have il: "ilog2 x = (if pow2 ?e \<le> x then ?e else ?e - 1)"
    by (simp add: ilog2_def pq Let_def)
  show ?thesis
  proof (cases "pow2 ?e \<le> x")
    case True
    then show ?thesis using up il by simp
  next
    case False
    then show ?thesis using lo il by simp
  qed
qed

lemma ilog2_eqI:
  assumes "pow2 e \<le> x" and "x < pow2 (e + 1)"
  shows "ilog2 x = e"
proof -
  have "0 < x" using assms(1) pow2_pos [of e] by simp
  from ilog2_bounds [OF this] have b: "pow2 (ilog2 x) \<le> x" "x < pow2 (ilog2 x + 1)" by simp_all
  have "pow2 e < pow2 (ilog2 x + 1)" using assms(1) b(2) by simp
  then have 1: "e < ilog2 x + 1" by (simp add: pow2_less_iff)
  have "pow2 (ilog2 x) < pow2 (e + 1)" using assms(2) b(1) by simp
  then have 2: "ilog2 x < e + 1" by (simp add: pow2_less_iff)
  from 1 2 show ?thesis by simp
qed

subsection \<open>Rounding to the nearest double\<close>

lemma round_half_even_of_int: "round_half_even (of_int k) = k"
  by (simp add: round_half_even_def)

lemma round_half_even_error: "\<bar>of_int (round_half_even q) - q\<bar> \<le> 1 / 2"
proof -
  have "of_int \<lfloor>q\<rfloor> \<le> q" "q < of_int \<lfloor>q\<rfloor> + 1" by linarith+
  then show ?thesis
    by (auto simp: round_half_even_def Let_def abs_le_iff)
qed

lemma ulp_pos: "0 < ulp x"
  by (simp add: ulp_def pow2_pos)

lemma ulp_eqI:
  "pow2 e \<le> \<bar>x\<bar> \<Longrightarrow> \<bar>x\<bar> < pow2 (e + 1) \<Longrightarrow> ulp x = pow2 (max e (- 1022) - 52)"
  by (simp add: ulp_def ilog2_eqI)

lemma ulp_le:
  assumes "x \<noteq> 0"
  shows "ulp x \<le> max (\<bar>x\<bar> * pow2 (- 52)) (pow2 (- 1074))"
proof -
  have "0 < \<bar>x\<bar>" using assms by simp
  from ilog2_bounds [OF this] have b: "pow2 (ilog2 \<bar>x\<bar>) \<le> \<bar>x\<bar>" by simp
  show ?thesis
  proof (cases "- 1022 \<le> ilog2 \<bar>x\<bar>")
    case True
    then have "ulp x = pow2 (ilog2 \<bar>x\<bar>) * pow2 (- 52)"
      by (simp add: ulp_def max_def pow2_add [symmetric])
    also have "\<dots> \<le> \<bar>x\<bar> * pow2 (- 52)"
      using b pow2_pos [of "- 52"] by (simp add: mult_right_mono)
    finally show ?thesis by simp
  next
    case False
    then have "ulp x = pow2 (- 1074)" by (simp add: ulp_def max_def)
    then show ?thesis by simp
  qed
qed

lemma round64_cases:
  assumes "x \<noteq> 0"
  obtains y where "y = of_int (round_half_even (x / ulp x)) * ulp x"
    and "\<bar>y - x\<bar> \<le> ulp x / 2"
    and "round64 x = (if pow2 1024 \<le> y then PosInf else if y \<le> - pow2 1024 then NegInf else Finite y)"
proof -
  let ?u = "ulp x"
  let ?y = "of_int (round_half_even (x / ?u)) * ?u"
  have u: "0 < ?u" by (rule ulp_pos)
  have "?y - x = (of_int (round_half_even (x / ?u)) - x / ?u) * ?u"
    using u by (simp add: left_diff_distrib)
  then have "\<bar>?y - x\<bar> = \<bar>of_int (round_half_even (x / ?u)) - x / ?u\<bar> * ?u"
    using u by (simp only: abs_mult)
  also have "\<dots> \<le> (1 / 2) * ?u"
    using round_half_even_error [of "x / ?u"] u by (intro mult_right_mono) simp_all
  finally have "\<bar>?y - x\<bar> \<le> ?u / 2" by simp
  moreover have "round64 x = (if pow2 1024 \<le> ?y then PosInf else if ?y \<le> - pow2 1024 then NegInf else Finite ?y)"
    using assms by (simp add: round64_def Let_def)
  ultimately show ?thesis using that by blast
qed

lemma round64_error:
  assumes "round64 x = Finite y"
  shows "\<bar>y - x\<bar> \<le> ulp x / 2"
proof (cases "x = 0")
  case True
  then show ?thesis using assms ulp_pos [of 0] by (simp add: round64_def)
next
  case False
  from round64_cases [OF this] obtain z where "\<bar>z - x\<bar> \<le> ulp x / 2"
    and "round64 x = (if pow2 1024 \<le> z then PosInf else if z \<le> - pow2 1024 then NegInf else Finite z)"
    by blast
  then show ?thesis using assms by (auto split: if_splits)
qed

lemma round64_finite:
  assumes "\<bar>x\<bar> \<le> pow2 1023"
  shows "\<exists>y. round64 x = Finite y"
proof (cases "x = 0")
  case True
  then show ?thesis by (simp add: round64_def)
next
  case False
  from round64_cases [OF this] obtain z where z: "\<bar>z - x\<bar> \<le> ulp x / 2"
    and r: "round64 x = (if pow2 1024 \<le> z then PosInf else if z \<le> - pow2 1024 then NegInf else Finite z)"
    by blast
  have "\<bar>x\<bar> * pow2 (- 52) \<le> pow2 1023 * pow2 (- 52)"
    using assms pow2_pos [of "- 52"] by (simp add: mult_right_mono)
  then have "\<bar>x\<bar> * pow2 (- 52) \<le> pow2 971" by (simp add: pow2_add [symmetric])
  moreover have "pow2 (- 1074) \<le> pow2 971" by (simp add: pow2_le_iff)
  ultimately have "ulp x \<le> pow2 971" using ulp_le [OF False] by simp
  then have "\<bar>z - x\<bar> \<le> pow2 971" using z ulp_pos [of x] by simp
  then have "\<bar>z\<bar> \<le> pow2 1023 + pow2 971" using assms by simp
  also have "\<dots> < pow2 1024" by (simp add: pow2_def)
  finally have "\<bar>z\<bar> < pow2 1024" .
  then show ?thesis using r by (auto simp: abs_less_iff)
qed

lemma round64_of_int_exact:
  assumes "\<bar>n\<bar> \<le> 2 ^ 53"
  shows "round64 (of_int n) = Finite (of_int n)"
proof (cases "n = 0")
  case True
  then show ?thesis by (simp add: round64_def)
next
  case False
  let ?x = "of_int n :: rat"
  let ?e = "ilog2 \<bar>?x\<bar>"
  have x0: "?x \<noteq> 0" using False by simp
  have pos: "0 < \<bar>?x\<bar>" using False by simp
  from ilog2_bounds [OF pos] have b: "pow2 ?e \<le> \<bar>?x\<bar>" "\<bar>?x\<bar> < pow2 (?e + 1)" by simp_all
  have "1 \<le> \<bar>n\<bar>" using False by simp
  then have "(of_int 1 :: rat) \<le> of_int \<bar>n\<bar>" by (simp only: of_int_le_iff)
  then have "(1::rat) \<le> \<bar>?x\<bar>" by simp
  then have "pow2 0 < pow2 (?e + 1)" using b(2) by (simp add: pow2_def)
  then have e0: "0 \<le> ?e" by (simp add: pow2_less_iff)
  have le: "\<bar>?x\<bar> \<le> pow2 53"
  proof -
    have "(of_int \<bar>n\<bar> :: rat) \<le> of_int (2 ^ 53)" using assms by (simp only: of_int_le_iff)
    then show ?thesis by (simp add: pow2_def)
  qed
  then have "pow2 ?e \<le> pow2 53" using b(1) by simp
  then have e53: "?e \<le> 53" by (simp add: pow2_le_iff)
  have u: "ulp ?x = pow2 (?e - 52)" using e0 by (simp add: ulp_def max_def)
  have "\<exists>k. ?x / pow2 (?e - 52) = of_int k"
  proof (cases "?e \<le> 52")
    case True
    have "pow2 (?e - 52) * pow2 (52 - ?e) = 1"
      by (simp add: pow2_add [symmetric] pow2_def)
    then have "?x / pow2 (?e - 52) = ?x * pow2 (52 - ?e)"
      using pow2_pos [of "?e - 52"] by (simp add: field_simps)
    also have "\<dots> = of_int (n * 2 ^ nat (52 - ?e))" using True by (simp add: pow2_def)
    finally show ?thesis by blast
  next
    case False
    then have e: "?e = 53" using e53 by simp
    then have "\<bar>?x\<bar> = pow2 53" using b(1) le by simp
    then have "(of_int \<bar>n\<bar> :: rat) = of_int (2 ^ 53)" by (simp add: pow2_def)
    then have "\<bar>n\<bar> = 2 ^ 53" by (simp only: of_int_eq_iff)
    then have "even n" by (cases "0 \<le> n") (simp, metis even_minus even_numeral even_power
        abs_of_neg linorder_not_le zero_less_numeral)
    then have "n = (n div 2) * 2" by simp
    then have "?x = of_int ((n div 2) * 2)" by simp
    then have "?x = of_int (n div 2) * 2" by (simp only: of_int_mult of_int_numeral)
    then have "?x / pow2 (?e - 52) = of_int (n div 2)" unfolding e by (simp add: pow2_def)
    then show ?thesis by blast
  qed
  then obtain k where k: "?x / pow2 (?e - 52) = of_int k" by blast
  have "of_int k * pow2 (?e - 52) = ?x"
    using k pow2_pos [of "?e - 52"] by (simp add: field_simps)
  then have y: "of_int (round_half_even (?x / ulp ?x)) * ulp ?x = ?x"
    unfolding u k round_half_even_of_int .
  have "\<bar>?x\<bar> < pow2 1024" using le pow2_less_iff [of 53 1024] by simp
  then have "\<not> pow2 1024 \<le> ?x" "\<not> ?x \<le> - pow2 1024" by (simp_all add: abs_less_iff)
  then show ?thesis using x0 by (simp add: round64_def Let_def y)
qed

lemma round64_eval:
  assumes "pow2 e \<le> \<bar>x\<bar>" and "\<bar>x\<bar> < pow2 (e + 1)" and "- 1022 \<le> e" and "e \<le> 1022"
    and "round_half_even (x / pow2 (e - 52)) = m"
  shows "round64 x = Finite (of_int m * pow2 (e - 52))"
proof -
  have x0: "x \<noteq> 0" using assms(1) pow2_pos [of e] by auto
  have u: "ulp x = pow2 (e - 52)" using ulp_eqI [OF assms(1,2)] assms(3) by (simp add: max_def)
  from round64_cases [OF x0] obtain y where y: "y = of_int (round_half_even (x / ulp x)) * ulp x"
    and err: "\<bar>y - x\<bar> \<le> ulp x / 2"
    and r: "round64 x = (if pow2 1024 \<le> y then PosInf else if y \<le> - pow2 1024 then NegInf else Finite y)"
    by blast
  have "pow2 (e - 52) \<le> pow2 970" using assms(4) by (simp add: pow2_le_iff)
  then have "\<bar>y - x\<bar> \<le> pow2 970" using err u pow2_pos [of "e - 52"] by simp
  moreover have "pow2 (e + 1) \<le> pow2 1023" using assms(4) by (simp add: pow2_le_iff)
  ultimately have "\<bar>y\<bar> < pow2 1023 + pow2 970" using assms(2) by simp
  also have "\<dots> < pow2 1024" by (simp add: pow2_def)
  finally have "\<not> pow2 1024 \<le> y" "\<not> y \<le> - pow2 1024" by (simp_all add: abs_less_iff)
  then show ?thesis using r y u assms(5) by simp
qed

lemma round_half_even_nonneg: "0 \<le> q \<Longrightarrow> 0 \<le> round_half_even q"
  by (simp add: round_half_even_def Let_def)

lemma round64_nonneg: "0 \<le> x \<Longrightarrow> round64 x = Finite y \<Longrightarrow> 0 \<le> y"
proof -
  assume x: "0 \<le> x" and r: "round64 x = Finite y"
  show ?thesis
  proof (cases "x = 0")
    case True
    then show ?thesis using r by (simp add: round64_def)
  next
    case False
    have "0 \<le> x / ulp x" using x ulp_pos [of x] by simp
    from round_half_even_nonneg [OF this] have "0 \<le> of_int (round_half_even (x / ulp x)) * ulp x"
      using ulp_pos [of x] by simp
    then show ?thesis using r False by (simp add: round64_def Let_def split: if_splits)
  qed
qed

lemma round64_nonneg_cases:
  assumes "0 \<le> x"
  shows "round64 x = PosInf \<or> (\<exists>y. round64 x = Finite y \<and> 0 \<le> y)"
proof (cases "round64 x")
  case (Finite y)
  then show ?thesis using round64_nonneg [OF assms] by simp
next
  case PosInf
  then show ?thesis by simp
next
  case NegInf
  have "0 \<le> x / ulp x" using assms ulp_pos [of x] by simp
  from round_half_even_nonneg [OF this] have "0 \<le> of_int (round_half_even (x / ulp x)) * ulp x"
    using ulp_pos [of x] by simp
  moreover have "- pow2 1024 < 0" using pow2_pos [of 1024] by simp
  ultimately show ?thesis using NegInf by (simp add: round64_def Let_def split: if_splits)
next
  case NaN
  then show ?thesis by (simp add: round64_def Let_def split: if_splits)
qed

lemma float64_of_int_exact: "\<bar>n\<bar> \<le> 2 ^ 53 \<Longrightarrow> float64_of_int n = Finite (of_int n)"
  by (simp add: float64_of_int_def round64_of_int_exact)

lemma round64_billion: "round64 1000000000 = Finite 1000000000"
  using round64_of_int_exact [of 1000000000] by simp

lemma fmul_Finite_D:
  "fmul a b = Finite x \<Longrightarrow> \<exists>s t. a = Finite s \<and> b = Finite t \<and> round64 (s * t) = Finite x"
  by (cases a; cases b) (simp_all add: signed_inf_def split: if_splits)

lemma fmul_commute: "fmul a b = fmul b a"
  by (cases a; cases b) (auto simp: signed_inf_def mult.commute)

lemma round64_magnitude:
  assumes "round64 x = Finite y"
  shows "\<bar>y\<bar> < pow2 1024"
proof (cases "x = 0")
  case True
  then show ?thesis using assms pow2_pos [of 1024] by (simp add: round64_def)
next
  case False
  then show ?thesis using assms
    by (simp add: round64_def Let_def abs_less_iff split: if_splits)
qed

lemma round64_zero: "round64 0 = Finite 0"
  by (simp add: round64_def)

text \<open>The floor of a quotient of numerals, for evaluating conversions.\<close>

lemma floor_rat_numeral [simp]: "\<lfloor>numeral a / numeral b :: rat\<rfloor> = numeral a div numeral b"
  using floor_divide_of_int_eq [of "numeral a" "numeral b", where ?'a = rat] by simp

subsection \<open>The constants\<close>

lemma Pi64_eq: "Pi64 = Finite (884279719003555 / 281474976710656)"
proof -
  have "round_half_even (math_Pi / pow2 (1 - 52)) = 7074237752028440"
    unfolding math_Pi_def by code_simp
  from round64_eval [OF _ _ _ _ this] show ?thesis
    unfolding Pi64_def by (simp add: pow2_def math_Pi_def)
qed

lemma TwoPi64_eq: "TwoPi64 = Finite (884279719003555 / 140737488355328)"
proof -
  have "round_half_even (2 * math_Pi / pow2 (2 - 52)) = 7074237752028440"
    unfolding math_Pi_def by code_simp
  from round64_eval [OF _ _ _ _ this] show ?thesis
    unfolding TwoPi64_def by (simp add: pow2_def math_Pi_def)
qed

text \<open>At time zero and phase zero the argument of the sine is zero.\<close>

lemma angle_at_zero:
  assumes "\<bar>f\<bar> \<le> pow2 1020"
  shows "angle (Finite 0) (Finite f) (Finite 0) = Finite 0"
proof -
  have "\<bar>884279719003555 / 140737488355328 * f\<bar> \<le> 8 * \<bar>f\<bar>"
    by (simp add: abs_mult)
  also have "\<dots> \<le> pow2 3 * pow2 1020" using assms by (simp add: pow2_def)
  also have "\<dots> = pow2 1023" by (simp add: pow2_add [symmetric])
  finally obtain w where "round64 (884279719003555 / 140737488355328 * f) = Finite w"
    using round64_finite by blast
  then show ?thesis by (simp add: angle_def TwoPi64_eq round64_zero)
qed

section \<open>Properties of the synthesizer\<close>

subsection \<open>Durations in seconds\<close>

lemma Seconds_eq:
  assumes "0 \<le> sint d"
  shows "Seconds d =
    fadd (Finite (of_int (sint d div 1000000000)))
         (round64 (of_int (sint d mod 1000000000) / 1000000000))"
proof -
  let ?k = "sint d"
  have lt: "?k < 2 ^ 63" using sint_lt [of d] by simp
  have sd: "?k sdiv Second = ?k div 1000000000"
    using assms by (cases "?k = 0") (simp_all add: signed_divide_int_def Second_def)
  have sm: "?k smod Second = ?k mod 1000000000"
    using assms by (cases "?k = 0") (simp_all add: signed_modulo_int_def Second_def)
  have "0 \<le> ?k div 1000000000" "?k div 1000000000 \<le> 2 ^ 53"
    using assms lt by simp_all
  then have a: "float64_of_int (?k div 1000000000) = Finite (of_int (?k div 1000000000))"
    by (intro float64_of_int_exact) simp
  have "0 \<le> ?k mod 1000000000" "?k mod 1000000000 < 1000000000" by simp_all
  then have b: "float64_of_int (?k mod 1000000000) = Finite (of_int (?k mod 1000000000))"
    by (intro float64_of_int_exact) simp
  show ?thesis
    by (simp add: Seconds_def Let_def sd sm a b round64_billion)
qed

lemma Seconds_nonneg:
  assumes "0 \<le> sint d" and "Seconds d = Finite s"
  shows "0 \<le> s"
proof -
  let ?x = "of_int (sint d mod 1000000000) / 1000000000 :: rat"
  have x: "0 \<le> ?x" by simp
  from round64_nonneg_cases [OF x] show ?thesis
  proof
    assume "round64 ?x = PosInf"
    then show ?thesis using assms(2) unfolding Seconds_eq [OF assms(1)] by simp
  next
    assume "\<exists>y. round64 ?x = Finite y \<and> 0 \<le> y"
    then obtain y where y: "round64 ?x = Finite y" "0 \<le> y" by blast
    have "0 \<le> sint d div 1000000000" using assms(1) by simp
    then have "(0::rat) \<le> of_int (sint d div 1000000000) + y" using y(2) by simp
    from round64_nonneg [OF this] assms(2) show ?thesis
      unfolding Seconds_eq [OF assms(1)] y(1) by simp
  qed
qed

lemma Seconds_whole:
  assumes "0 \<le> k" and "sint d = k * 1000000000"
  shows "Seconds d = Finite (of_int k)"
proof -
  have d: "0 \<le> sint d" using assms by simp
  have "k * 1000000000 < 2 ^ 63" using sint_lt [of d] assms(2) by simp
  then have "\<bar>k\<bar> \<le> 2 ^ 53" using assms(1) by simp
  from round64_of_int_exact [OF this] show ?thesis
    unfolding Seconds_eq [OF d] assms(2) by (simp add: round64_def)
qed

subsection \<open>The loops\<close>

lemma generate_loop_eq:
  "length wave = numSamples \<Longrightarrow> i \<le> numSamples \<Longrightarrow>
   generate_loop env waveFunc frequency amplitude phase sampleRate i numSamples wave =
     take i wave @
     map (\<lambda>j. int16_of_float64 env
            (waveFunc (fdiv (float64_of_int (int j)) (float64_of_int (sint sampleRate)))
               frequency amplitude phase)) [i..<numSamples]"
proof (induction env waveFunc frequency amplitude phase sampleRate i numSamples wave
    rule: generate_loop.induct)
  case (1 env waveFunc frequency amplitude phase sampleRate i numSamples wave)
  let ?s = "\<lambda>j. int16_of_float64 env
            (waveFunc (fdiv (float64_of_int (int j)) (float64_of_int (sint sampleRate)))
               frequency amplitude phase)"
  show ?case
  proof (cases "i < numSamples")
    case True
    have "generate_loop env waveFunc frequency amplitude phase sampleRate i numSamples wave =
          generate_loop env waveFunc frequency amplitude phase sampleRate (Suc i) numSamples
            (wave[i := ?s i])"
      using True by (subst generate_loop.simps) (simp add: Let_def)
    also have "\<dots> = take (Suc i) (wave[i := ?s i]) @ map ?s [Suc i..<numSamples]"
      using "1.IH" [OF True refl refl] "1.prems" True by simp
    also have "take (Suc i) (wave[i := ?s i]) = take i wave @ [?s i]"
      using True "1.prems"(1) by (simp add: take_Suc_conv_app_nth)
    finally show ?thesis using True by (simp add: upt_conv_Cons)
  next
    case False
    then have "i = numSamples" using "1.prems" by simp
    then show ?thesis using "1.prems" by (subst generate_loop.simps) simp
  qed
qed

lemma sine_loop_eq:
  "length sineWave = numSamples \<Longrightarrow> i \<le> numSamples \<Longrightarrow>
   sine_loop env freq sampleRate i numSamples sineWave =
     take i sineWave @
     map (\<lambda>j. int16_of_float64 env
            (fmul (float64_of_int MaxInt16)
               (math_Sin env (fmul (fmul TwoPi64 freq)
                  (fdiv (float64_of_int (int j)) (float64_of_int (sint sampleRate)))))))
         [i..<numSamples]"
proof (induction env freq sampleRate i numSamples sineWave rule: sine_loop.induct)
  case (1 env freq sampleRate i numSamples sineWave)
  let ?s = "\<lambda>j. int16_of_float64 env
            (fmul (float64_of_int MaxInt16)
               (math_Sin env (fmul (fmul TwoPi64 freq)
                  (fdiv (float64_of_int (int j)) (float64_of_int (sint sampleRate))))))"
  show ?case
  proof (cases "i < numSamples")
    case True
    have "sine_loop env freq sampleRate i numSamples sineWave =
          sine_loop env freq sampleRate (Suc i) numSamples (sineWave[i := ?s i])"
      using True by (subst sine_loop.simps) (simp add: Let_def)
    also have "\<dots> = take (Suc i) (sineWave[i := ?s i]) @ map ?s [Suc i..<numSamples]"
      using "1.IH" [OF True refl refl] "1.prems" True by simp
    also have "take (Suc i) (sineWave[i := ?s i]) = take i sineWave @ [?s i]"
      using True "1.prems"(1) by (simp add: take_Suc_conv_app_nth)
    finally show ?thesis using True by (simp add: upt_conv_Cons)
  next
    case False
    then have "i = numSamples" using "1.prems" by simp
    then show ?thesis using "1.prems" by (subst sine_loop.simps) simp
  qed
qed

subsection \<open>The number of samples\<close>

lemma int_of_float64_in_range:
  assumes "0 \<le> x" and "x < 2 ^ 63"
  shows "sint (int_of_float64 env (Finite x)) = \<lfloor>x\<rfloor>"
proof -
  have f: "0 \<le> \<lfloor>x\<rfloor>" "\<lfloor>x\<rfloor> < 2 ^ 63" using assms by (simp_all add: floor_less_iff)
  then have "sint (word_of_int \<lfloor>x\<rfloor> :: int64) = \<lfloor>x\<rfloor>"
    by (simp add: sint_sbintrunc' signed_take_bit_int_eq_self)
  then show ?thesis using assms(1) f by (simp add: discard_fraction_def)
qed

lemma floor_within_maxAlloc:
  assumes "2 * \<lfloor>x :: rat\<rfloor> \<le> maxAlloc"
  shows "x < 2 ^ 63"
proof -
  have "\<lfloor>x\<rfloor> < 2 ^ 63" using assms by (simp add: maxAlloc_def)
  then show ?thesis by (simp add: floor_less_iff)
qed

lemma makeslice_int16_ok:
  "0 \<le> n \<Longrightarrow> 2 * n \<le> maxAlloc \<Longrightarrow> makeslice_int16 n = Inr (replicate (nat n) 0)"
  by (simp add: makeslice_int16_def)

lemma GenerateWave_product:
  assumes "fmul (Seconds duration) (float64_of_int (sint sampleRate)) = Finite x"
    and "0 \<le> x" and "2 * \<lfloor>x\<rfloor> \<le> maxAlloc"
  shows "GenerateWave env waveFunc frequency amplitude phase sampleRate duration =
     Inr (map (\<lambda>j. int16_of_float64 env
            (waveFunc (fdiv (float64_of_int (int j)) (float64_of_int (sint sampleRate)))
               frequency amplitude phase)) [0..<nat \<lfloor>x\<rfloor>])"
proof -
  have s: "sint (int_of_float64 env (Finite x)) = \<lfloor>x\<rfloor>"
    by (rule int_of_float64_in_range [OF assms(2) floor_within_maxAlloc [OF assms(3)]])
  have "0 \<le> \<lfloor>x\<rfloor>" using assms(2) by simp
  from makeslice_int16_ok [OF this assms(3)] show ?thesis
    unfolding GenerateWave_def assms(1) Let_def s by (simp add: generate_loop_eq)
qed

lemma GenerateSineWave_product:
  assumes "fmul (Seconds duration) (float64_of_int (sint sampleRate)) = Finite x"
    and "0 \<le> x" and "2 * \<lfloor>x\<rfloor> \<le> maxAlloc"
  shows "GenerateSineWave env freq sampleRate duration =
     Inr (map (\<lambda>j. int16_of_float64 env
            (fmul (float64_of_int MaxInt16)
               (math_Sin env (fmul (fmul TwoPi64 freq)
                  (fdiv (float64_of_int (int j)) (float64_of_int (sint sampleRate)))))))
         [0..<nat \<lfloor>x\<rfloor>])"
proof -
  have s: "sint (int_of_float64 env (Finite x)) = \<lfloor>x\<rfloor>"
    by (rule int_of_float64_in_range [OF assms(2) floor_within_maxAlloc [OF assms(3)]])
  have "0 \<le> \<lfloor>x\<rfloor>" using assms(2) by simp
  have c: "fmul (float64_of_int (sint sampleRate)) (Seconds duration) = Finite x"
    using assms(1) by (simp add: fmul_commute)
  from makeslice_int16_ok [OF \<open>0 \<le> \<lfloor>x\<rfloor>\<close> assms(3)] show ?thesis
    unfolding GenerateSineWave_def c Let_def s by (simp add: sine_loop_eq)
qed

lemma product_nonneg:
  assumes "0 < sint (sampleRate :: int64)" and "0 \<le> sint duration"
    and "fmul (Seconds duration) (float64_of_int (sint sampleRate)) = Finite x"
  shows "0 \<le> x"
proof -
  from fmul_Finite_D [OF assms(3)] obtain s t where
    s: "Seconds duration = Finite s" and t: "float64_of_int (sint sampleRate) = Finite t"
    and x: "round64 (s * t) = Finite x" by blast
  have "0 \<le> s" by (rule Seconds_nonneg [OF assms(2) s])
  moreover have "0 \<le> t"
  proof -
    have "(0::rat) \<le> of_int (sint sampleRate)" using assms(1) by (simp only: of_int_0_le_iff)
    then show ?thesis using t unfolding float64_of_int_def by (rule round64_nonneg)
  qed
  ultimately have "0 \<le> s * t" by simp
  from round64_nonneg [OF this x] show ?thesis .
qed

lemma float64_of_int64_finite: "\<exists>t. float64_of_int (sint (r :: int64)) = Finite t"
proof -
  have "- (2 ^ 63) \<le> sint r" "sint r < 2 ^ 63" using sint_ge [of r] sint_lt [of r] by simp_all
  then have "\<bar>sint r\<bar> \<le> 2 ^ 63" by simp
  then have "(of_int \<bar>sint r\<bar> :: rat) \<le> of_int (2 ^ 63)" by (simp only: of_int_le_iff)
  then have "\<bar>of_int (sint r) :: rat\<bar> \<le> pow2 63" by (simp add: pow2_def)
  also have "\<dots> \<le> pow2 1023" by (simp add: pow2_le_iff)
  finally show ?thesis unfolding float64_of_int_def by (rule round64_finite)
qed

lemma product_whole_seconds:
  assumes "0 < sint (sampleRate :: int64)" and "0 \<le> k" and "sint duration = k * 1000000000"
    and "sint sampleRate * k \<le> 2 ^ 53"
  shows "fmul (Seconds duration) (float64_of_int (sint sampleRate)) =
         Finite (of_int (sint sampleRate * k))"
proof (cases "k = 0")
  case True
  obtain t where "float64_of_int (sint sampleRate) = Finite t"
    using float64_of_int64_finite [of sampleRate] by blast
  then show ?thesis using Seconds_whole [OF assms(2,3)] True by (simp add: round64_def)
next
  case False
  then have k: "1 \<le> k" using assms(2) by simp
  have "sint sampleRate * 1 \<le> sint sampleRate * k"
    using k assms(1) by (intro mult_left_mono) simp_all
  then have "sint sampleRate \<le> 2 ^ 53" using assms(4) by linarith
  then have "\<bar>sint sampleRate\<bar> \<le> 2 ^ 53" using assms(1) by simp
  then have t: "float64_of_int (sint sampleRate) = Finite (of_int (sint sampleRate))"
    by (rule float64_of_int_exact)
  have "0 \<le> sint sampleRate * k" using assms(1,2) by simp
  then have "\<bar>k * sint sampleRate\<bar> \<le> 2 ^ 53" using assms(4) by (simp add: mult.commute)
  from round64_of_int_exact [OF this] show ?thesis
    using Seconds_whole [OF assms(2,3)] t by (simp add: mult.commute)
qed

text \<open>
  A duration of 290 ms at 100 samples per second. \<open>Seconds\<close> divides 290000000 by
  \<open>1e9\<close>; the double nearest to 0.29 is \<open>5224175567749775 / 2 ^ 54\<close>, which is
  0.28999999999999998. Its exact product with 100 is 28.999999999999998, and the nearest
  double to that is \<open>8162774324609023 / 2 ^ 48\<close>, which is 28.999999999999996: the
  value every binary64 arithmetic gives for \<open>0.29 * 100\<close>.
\<close>

lemma round64_29_100: "round64 (29 / 100) = Finite (5224175567749775 / 18014398509481984)"
proof -
  have "round_half_even (29 / 100 / pow2 (- 2 - 52)) = 5224175567749775" by code_simp
  from round64_eval [OF _ _ _ _ this] show ?thesis by (simp add: pow2_def)
qed

lemma round64_29_100_again: "round64 (5224175567749775 / 18014398509481984) = Finite (5224175567749775 / 18014398509481984)"
proof -
  have "round_half_even (5224175567749775 / 18014398509481984 / pow2 (- 2 - 52)) = 5224175567749775"
    by code_simp
  from round64_eval [OF _ _ _ _ this] show ?thesis by (simp add: pow2_def)
qed

lemma round64_29_100_times_100: "round64 (5224175567749775 / 18014398509481984 * 100) = Finite (8162774324609023 / 281474976710656)"
proof -
  have "round_half_even (5224175567749775 / 18014398509481984 * 100 / pow2 (4 - 52)) = 8162774324609023"
    by code_simp
  from round64_eval [OF _ _ _ _ this] show ?thesis by (simp add: pow2_def)
qed

lemma Seconds_290ms: "Seconds 290000000 = Finite (5224175567749775 / 18014398509481984)"
proof -
  have "0 \<le> sint (290000000 :: int64)" by simp
  from Seconds_eq [OF this] show ?thesis by (simp add: round64_29_100 round64_29_100_again)
qed

lemma product_290ms:
  "fmul (Seconds 290000000) (float64_of_int (sint (100 :: int64))) =
   Finite (8162774324609023 / 281474976710656)"
proof -
  have "float64_of_int (sint (100 :: int64)) = Finite 100"
    using float64_of_int_exact [of 100] by simp
  then show ?thesis using round64_29_100_times_100 by (simp add: Seconds_290ms)
qed

lemma length_290ms:
  "\<exists>wave. GenerateWave env waveFunc frequency amplitude phase 100 290000000 = Inr wave \<and>
          length wave = 28"
  using GenerateWave_product [OF product_290ms, of env waveFunc frequency amplitude phase]
  by (simp add: maxAlloc_def)

text \<open>A count within the range of \<open>int\<close> that \<open>makeslice\<close> refuses.\<close>

lemma Generate_too_long:
  assumes "fmul (Seconds duration) (float64_of_int (sint sampleRate)) = Finite x"
    and "0 \<le> x" and "x < 2 ^ 63" and "maxAlloc < 2 * \<lfloor>x\<rfloor>"
  shows "GenerateWave env waveFunc frequency amplitude phase sampleRate duration =
           Inl MakesliceLenOutOfRange"
    and "GenerateSineWave env freq sampleRate duration = Inl MakesliceLenOutOfRange"
proof -
  have s: "sint (int_of_float64 env (Finite x)) = \<lfloor>x\<rfloor>"
    by (rule int_of_float64_in_range [OF assms(2,3)])
  have m: "makeslice_int16 \<lfloor>x\<rfloor> = Inl MakesliceLenOutOfRange"
    using assms(4) by (simp add: makeslice_int16_def)
  show "GenerateWave env waveFunc frequency amplitude phase sampleRate duration =
           Inl MakesliceLenOutOfRange"
    unfolding GenerateWave_def assms(1) Let_def s m by simp
  have c: "fmul (float64_of_int (sint sampleRate)) (Seconds duration) = Finite x"
    using assms(1) by (simp add: fmul_commute)
  show "GenerateSineWave env freq sampleRate duration = Inl MakesliceLenOutOfRange"
    unfolding GenerateSineWave_def c Let_def s m by simp
qed

text \<open>
  Claim C2 says that for every sample rate \<open>r > 0\<close> and duration \<open>d \<ge> 0\<close> the signal
  has \<open>floor (r * d)\<close> samples. The count is taken from a product of doubles: at 100
  samples per second and 290 ms the program makes 28 samples, and \<open>floor (100 * 0.29)\<close>
  is 29.
\<close>

theorem GenerateWave_length_counterexample:
  "map_sum id length (GenerateWave example_env (SineWave example_env) (Finite 220)
      (Finite 26213) (Finite 0) 100 290000000) = Inr 28 \<and>
   \<lfloor>(100 :: rat) * (290000000 / 1000000000)\<rfloor> = 29"
proof -
  from length_290ms [of example_env "SineWave example_env" "Finite 220" "Finite 26213" "Finite 0"]
  obtain wave where "GenerateWave example_env (SineWave example_env) (Finite 220)
      (Finite 26213) (Finite 0) 100 290000000 = Inr wave" "length wave = 28" by blast
  then show ?thesis by simp
qed

text \<open>
  Claim C2, as the code has it. Let the sample rate be positive and the duration not
  negative, and let \<open>x\<close> be the double-precision product of \<open>duration.Seconds()\<close> and
  \<open>float64(sampleRate)\<close>. When \<open>x\<close> is finite and a slice of \<open>floor x\<close> samples is within
  the allocation limit, \<open>2 * floor x \<le> maxAlloc\<close>, both \<open>GenerateWave\<close> and
  \<open>GenerateSineWave\<close> return a signal of \<open>floor x\<close> samples. When \<open>x\<close> is below \<open>2 ^ 63\<close>
  and the slice is beyond the limit, both panic in \<open>make\<close>. For a duration of \<open>k\<close> whole
  seconds with a slice of \<open>sampleRate * k\<close> samples within the limit the product is
  exact, and the length is \<open>floor (r * d)\<close> for the exact rate \<open>r\<close> and duration \<open>d\<close> in
  seconds. A duration of zero gives the empty signal and no failure.
\<close>

theorem GenerateWave_length:
  assumes "0 < sint sampleRate" and "0 \<le> sint duration"
  shows
    "(\<forall>x. fmul (Seconds duration) (float64_of_int (sint sampleRate)) = Finite x \<and>
          2 * \<lfloor>x\<rfloor> \<le> maxAlloc \<longrightarrow>
        (\<exists>wave. GenerateWave env waveFunc frequency amplitude phase sampleRate duration = Inr wave \<and>
                int (length wave) = \<lfloor>x\<rfloor>) \<and>
        (\<exists>sineWave. GenerateSineWave env frequency sampleRate duration = Inr sineWave \<and>
                int (length sineWave) = \<lfloor>x\<rfloor>)) \<and>
     (\<forall>x. fmul (Seconds duration) (float64_of_int (sint sampleRate)) = Finite x \<and>
          x < 2 ^ 63 \<and> maxAlloc < 2 * \<lfloor>x\<rfloor> \<longrightarrow>
        GenerateWave env waveFunc frequency amplitude phase sampleRate duration =
          Inl MakesliceLenOutOfRange \<and>
        GenerateSineWave env frequency sampleRate duration = Inl MakesliceLenOutOfRange) \<and>
     (\<forall>k. sint duration = k * 1000000000 \<and> 2 * (sint sampleRate * k) \<le> maxAlloc \<longrightarrow>
        (\<exists>wave. GenerateWave env waveFunc frequency amplitude phase sampleRate duration = Inr wave \<and>
                int (length wave) =
                  \<lfloor>of_int (sint sampleRate) * (of_int (sint duration) / 1000000000 :: rat)\<rfloor>) \<and>
        (\<exists>sineWave. GenerateSineWave env frequency sampleRate duration = Inr sineWave \<and>
                int (length sineWave) =
                  \<lfloor>of_int (sint sampleRate) * (of_int (sint duration) / 1000000000 :: rat)\<rfloor>)) \<and>
     (duration = 0 \<longrightarrow>
        GenerateWave env waveFunc frequency amplitude phase sampleRate duration = Inr [] \<and>
        GenerateSineWave env frequency sampleRate duration = Inr [])"
proof -
  have general: "(\<exists>wave. GenerateWave env waveFunc frequency amplitude phase sampleRate duration = Inr wave \<and>
                int (length wave) = \<lfloor>x\<rfloor>) \<and>
        (\<exists>sineWave. GenerateSineWave env frequency sampleRate duration = Inr sineWave \<and>
                int (length sineWave) = \<lfloor>x\<rfloor>)"
    if p: "fmul (Seconds duration) (float64_of_int (sint sampleRate)) = Finite x"
      and "2 * \<lfloor>x\<rfloor> \<le> maxAlloc"
    for x
  proof -
    have x: "0 \<le> x" by (rule product_nonneg [OF assms p])
    then have "0 \<le> \<lfloor>x\<rfloor>" by simp
    then show ?thesis
      using GenerateWave_product [OF p x that(2)] GenerateSineWave_product [OF p x that(2)]
      by simp
  qed
  have refused: "GenerateWave env waveFunc frequency amplitude phase sampleRate duration =
          Inl MakesliceLenOutOfRange \<and>
        GenerateSineWave env frequency sampleRate duration = Inl MakesliceLenOutOfRange"
    if p: "fmul (Seconds duration) (float64_of_int (sint sampleRate)) = Finite x"
      and "x < 2 ^ 63" and "maxAlloc < 2 * \<lfloor>x\<rfloor>"
    for x
  proof -
    have x: "0 \<le> x" by (rule product_nonneg [OF assms p])
    from Generate_too_long [OF p x that(2,3)] show ?thesis by simp
  qed
  have whole: "fmul (Seconds duration) (float64_of_int (sint sampleRate)) =
         Finite (of_int (sint sampleRate * k)) \<and>
         \<lfloor>of_int (sint sampleRate) * (of_int (sint duration) / 1000000000 :: rat)\<rfloor> =
         \<lfloor>of_int (sint sampleRate * k) :: rat\<rfloor>"
    if "sint duration = k * 1000000000" "2 * (sint sampleRate * k) \<le> maxAlloc" for k
  proof -
    have k: "0 \<le> k" using assms(2) that(1) by (simp add: zero_le_mult_iff)
    have "sint sampleRate * k \<le> 2 ^ 53"
      using that(2) by (simp add: maxAlloc_def mult.commute)
    then show ?thesis using product_whole_seconds [OF assms(1) k that(1)] that(1) by simp
  qed
  have zero: "GenerateWave env waveFunc frequency amplitude phase sampleRate duration = Inr [] \<and>
        GenerateSineWave env frequency sampleRate duration = Inr []" if "duration = 0"
  proof -
    have "sint duration = 0 * 1000000000" "2 * (sint sampleRate * 0) \<le> maxAlloc"
      using that by (simp_all add: maxAlloc_def)
    from whole [OF this] general [of 0] show ?thesis by (simp add: maxAlloc_def)
  qed
  show ?thesis
  proof (intro conjI allI impI)
    fix x assume "fmul (Seconds duration) (float64_of_int (sint sampleRate)) = Finite x \<and>
          2 * \<lfloor>x\<rfloor> \<le> maxAlloc"
    then show "\<exists>wave. GenerateWave env waveFunc frequency amplitude phase sampleRate duration = Inr wave \<and>
                int (length wave) = \<lfloor>x\<rfloor>"
      and "\<exists>sineWave. GenerateSineWave env frequency sampleRate duration = Inr sineWave \<and>
                int (length sineWave) = \<lfloor>x\<rfloor>"
      using general [of x] by simp_all
  next
    fix x assume "fmul (Seconds duration) (float64_of_int (sint sampleRate)) = Finite x \<and>
          x < 2 ^ 63 \<and> maxAlloc < 2 * \<lfloor>x\<rfloor>"
    then show "GenerateWave env waveFunc frequency amplitude phase sampleRate duration =
          Inl MakesliceLenOutOfRange"
      and "GenerateSineWave env frequency sampleRate duration = Inl MakesliceLenOutOfRange"
      using refused [of x] by simp_all
  next
    fix k assume a: "sint duration = k * 1000000000 \<and> 2 * (sint sampleRate * k) \<le> maxAlloc"
    then have "2 * \<lfloor>of_int (sint sampleRate * k) :: rat\<rfloor> \<le> maxAlloc"
      unfolding floor_of_int by (rule conjunct2)
    with a whole [of k] general [of "of_int (sint sampleRate * k)"]
    show "\<exists>wave. GenerateWave env waveFunc frequency amplitude phase sampleRate duration = Inr wave \<and>
                int (length wave) =
                  \<lfloor>of_int (sint sampleRate) * (of_int (sint duration) / 1000000000 :: rat)\<rfloor>"
      and "\<exists>sineWave. GenerateSineWave env frequency sampleRate duration = Inr sineWave \<and>
                int (length sineWave) =
                  \<lfloor>of_int (sint sampleRate) * (of_int (sint duration) / 1000000000 :: rat)\<rfloor>"
      by simp_all
  next
    assume "duration = 0"
    then show "GenerateWave env waveFunc frequency amplitude phase sampleRate duration = Inr []"
      and "GenerateSineWave env frequency sampleRate duration = Inr []"
      using zero by simp_all
  qed
qed

text \<open>
  Two seconds at 44100 samples per second make 88200 samples in both generators, no
  time makes no samples, and 290 ms at 100 samples per second make the 28 samples of the
  rounded product. Two seconds at \<open>2 ^ 47\<close> samples per second ask for \<open>2 ^ 48\<close> samples,
  twice the limit in bytes, and \<open>make\<close> panics.
\<close>

theorem GenerateWave_length_witness:
  "(\<exists>wave. GenerateWave example_env (SineWave example_env) (Finite 220) (Finite 26213)
      (Finite 0) 44100 2000000000 = Inr wave \<and> int (length wave) = 88200) \<and>
   (\<exists>sineWave. GenerateSineWave example_env (Finite 220) 44100 2000000000 = Inr sineWave \<and>
      int (length sineWave) = 88200) \<and>
   GenerateWave example_env (SineWave example_env) (Finite 220) (Finite 26213)
      (Finite 0) 44100 0 = Inr [] \<and>
   (\<exists>wave. GenerateWave example_env (SineWave example_env) (Finite 220) (Finite 26213)
      (Finite 0) 100 290000000 = Inr wave \<and> int (length wave) = 28) \<and>
   GenerateWave example_env (SineWave example_env) (Finite 220) (Finite 26213)
      (Finite 0) 140737488355328 2000000000 = Inl MakesliceLenOutOfRange"
proof -
  have a: "0 < sint (44100 :: int64)" and b: "0 \<le> sint (2000000000 :: int64)"
    and c: "0 \<le> sint (0 :: int64)" by simp_all
  have d: "sint (2000000000 :: int64) = 2 * 1000000000 \<and>
           2 * (sint (44100 :: int64) * 2) \<le> maxAlloc"
    by (simp add: maxAlloc_def)
  have e: "\<lfloor>of_int (sint (44100 :: int64)) * (of_int (sint (2000000000 :: int64)) / 1000000000 :: rat)\<rfloor>
           = 88200" by simp
  note t1 = GenerateWave_length [OF a b, of example_env "SineWave example_env" "Finite 220"
      "Finite 26213" "Finite 0"]
  from t1 [THEN conjunct2, THEN conjunct2, THEN conjunct1, rule_format, OF d]
  have w1: "(\<exists>wave. GenerateWave example_env (SineWave example_env) (Finite 220)
      (Finite 26213) (Finite 0) 44100 2000000000 = Inr wave \<and> int (length wave) = 88200) \<and>
   (\<exists>sineWave. GenerateSineWave example_env (Finite 220) 44100 2000000000 = Inr sineWave \<and>
      int (length sineWave) = 88200)"
    unfolding e .
  from GenerateWave_length [OF a c, of example_env "SineWave example_env" "Finite 220"
      "Finite 26213" "Finite 0"]
  have w2: "GenerateWave example_env (SineWave example_env) (Finite 220) (Finite 26213)
      (Finite 0) 44100 0 = Inr []"
    by simp
  have f: "0 < sint (100 :: int64)" and g: "0 \<le> sint (290000000 :: int64)" by simp_all
  have h: "2 * \<lfloor>8162774324609023 / 281474976710656 :: rat\<rfloor> \<le> maxAlloc"
    by (simp add: maxAlloc_def)
  from GenerateWave_length [OF f g, of example_env "SineWave example_env" "Finite 220"
      "Finite 26213" "Finite 0", THEN conjunct1, rule_format, OF conjI [OF product_290ms h]]
  have w3: "\<exists>wave. GenerateWave example_env (SineWave example_env) (Finite 220) (Finite 26213)
      (Finite 0) 100 290000000 = Inr wave \<and> int (length wave) = 28"
    by simp
  have i: "0 < sint (140737488355328 :: int64)" by simp
  have "fmul (Seconds 2000000000) (float64_of_int (sint (140737488355328 :: int64))) =
        Finite (of_int (sint (140737488355328 :: int64) * 2))"
    by (rule product_whole_seconds) simp_all
  then have p: "fmul (Seconds 2000000000) (float64_of_int (sint (140737488355328 :: int64))) =
        Finite 281474976710656" by simp
  have q: "(281474976710656 :: rat) < 2 ^ 63 \<and> maxAlloc < 2 * \<lfloor>281474976710656 :: rat\<rfloor>"
    by (simp add: maxAlloc_def)
  from GenerateWave_length [OF i b, of example_env "SineWave example_env" "Finite 220"
      "Finite 26213" "Finite 0", THEN conjunct2, THEN conjunct1, rule_format,
      OF conjI [OF p q]]
  have w4: "GenerateWave example_env (SineWave example_env) (Finite 220) (Finite 26213)
      (Finite 0) 140737488355328 2000000000 = Inl MakesliceLenOutOfRange"
    by simp
  from w1 w2 w3 w4 show ?thesis by blast
qed

subsection \<open>Quantization\<close>

lemma GenerateWave_Inr_D:
  assumes "GenerateWave env waveFunc frequency amplitude phase sampleRate duration = Inr wave"
  shows "wave = map (\<lambda>j. int16_of_float64 env
            (waveFunc (fdiv (float64_of_int (int j)) (float64_of_int (sint sampleRate)))
               frequency amplitude phase)) [0..<length wave]"
proof -
  let ?n = "nat (sint (int_of_float64 env
              (fmul (Seconds duration) (float64_of_int (sint sampleRate)))))"
  have "wave = generate_loop env waveFunc frequency amplitude phase sampleRate 0 ?n
                 (replicate ?n 0)"
    using assms
    by (auto simp: GenerateWave_def Let_def makeslice_int16_def split: if_splits)
  then have w: "wave = map (\<lambda>j. int16_of_float64 env
            (waveFunc (fdiv (float64_of_int (int j)) (float64_of_int (sint sampleRate)))
               frequency amplitude phase)) [0..<?n]"
    by (simp add: generate_loop_eq)
  then have "length wave = ?n" by simp
  then show ?thesis using w by simp
qed

lemma discard_fraction_toward_zero:
  "\<bar>of_int (discard_fraction x)\<bar> \<le> \<bar>x\<bar> \<and> \<bar>x\<bar> < \<bar>of_int (discard_fraction x)\<bar> + 1 \<and>
   0 \<le> x * of_int (discard_fraction x)"
proof (cases "0 \<le> x")
  case True
  have "of_int \<lfloor>x\<rfloor> \<le> x" "x < of_int \<lfloor>x\<rfloor> + 1" by linarith+
  moreover have "(0::rat) \<le> of_int \<lfloor>x\<rfloor>" using True by simp
  ultimately show ?thesis using True by (simp add: discard_fraction_def)
next
  case False
  have c: "of_int \<lceil>x\<rceil> - 1 < x" "x \<le> of_int \<lceil>x\<rceil>" by linarith+
  have "\<lceil>x\<rceil> \<le> 0" using False by (simp add: ceiling_le_iff)
  then have n: "(of_int \<lceil>x\<rceil> :: rat) \<le> 0" by simp
  then have "0 \<le> x * of_int \<lceil>x\<rceil>" using False by (simp add: mult_nonpos_nonpos)
  then show ?thesis using False c n by (simp add: discard_fraction_def)
qed

lemma discard_fraction_int16_range:
  "MinInt16 \<le> discard_fraction x \<and> discard_fraction x \<le> MaxInt16 \<longleftrightarrow>
   - 32769 < x \<and> x < 32768"
  unfolding discard_fraction_def MinInt16_def MaxInt16_def
  by (auto simp: le_floor_iff floor_le_iff le_ceiling_iff ceiling_le_iff)

lemma sint_int16_of_float64:
  assumes "- 32769 < x" and "x < 32768"
  shows "sint (int16_of_float64 env (Finite x)) = discard_fraction x"
proof -
  have r: "MinInt16 \<le> discard_fraction x" "discard_fraction x \<le> MaxInt16"
    using discard_fraction_int16_range [of x] assms by simp_all
  then have "sint (word_of_int (discard_fraction x) :: int16) = discard_fraction x"
    unfolding MinInt16_def MaxInt16_def
    by (simp add: sint_sbintrunc' signed_take_bit_int_eq_self)
  then show ?thesis using r by simp
qed

text \<open>
  Claim C3. Let \<open>GenerateWave\<close> return \<open>wave\<close>, let \<open>i\<close> be an index of it and
  \<open>sample\<close> the value of the waveform at the time \<open>float64(i) / float64(sampleRate)\<close>.
  Then \<open>wave ! i\<close> is the bare conversion \<open>int16(sample)\<close>. When \<open>sample\<close> is finite and
  its integer part fits 16 bits, \<open>wave ! i\<close> is \<open>sample\<close> truncated toward zero: the
  integer of the same sign whose magnitude is the largest one not above that of
  \<open>sample\<close>. When it does not fit, nothing clamps it: \<open>wave ! i\<close> is whatever the
  conversion itself yields for an unrepresentable value. For a positive sample rate and
  an index both up to \<open>2 ^ 53\<close>, the time is the double nearest to \<open>i / sampleRate\<close>.
\<close>

theorem GenerateWave_quantizes_by_truncation:
  assumes "GenerateWave env waveFunc frequency amplitude phase sampleRate duration = Inr wave"
    and "i < length wave"
    and "sample = waveFunc (fdiv (float64_of_int (int i)) (float64_of_int (sint sampleRate)))
                    frequency amplitude phase"
  shows "wave ! i = int16_of_float64 env sample \<and>
    (\<forall>x. sample = Finite x \<and> - 32769 < x \<and> x < 32768 \<longrightarrow>
       \<bar>of_int (sint (wave ! i))\<bar> \<le> \<bar>x\<bar> \<and> \<bar>x\<bar> < \<bar>of_int (sint (wave ! i))\<bar> + 1 \<and>
       0 \<le> x * of_int (sint (wave ! i))) \<and>
    ((\<forall>x. sample = Finite x \<longrightarrow> x \<le> - 32769 \<or> 32768 \<le> x) \<longrightarrow>
       wave ! i = int16_unrepresentable env sample) \<and>
    (0 < sint sampleRate \<and> sint sampleRate \<le> 2 ^ 53 \<and> int i \<le> 2 ^ 53 \<longrightarrow>
       fdiv (float64_of_int (int i)) (float64_of_int (sint sampleRate)) =
       round64 (of_int (int i) / of_int (sint sampleRate)))"
proof -
  have w: "wave ! i = int16_of_float64 env sample"
    using GenerateWave_Inr_D [OF assms(1)] assms(2,3)
    by (metis (no_types, lifting) add_0 length_map nth_map nth_upt length_upt diff_zero)
  have t: "\<bar>of_int (sint (wave ! i))\<bar> \<le> \<bar>x\<bar> \<and> \<bar>x\<bar> < \<bar>of_int (sint (wave ! i))\<bar> + 1 \<and>
       0 \<le> x * of_int (sint (wave ! i))"
    if "sample = Finite x" "- 32769 < x" "x < 32768" for x
    unfolding w that(1) sint_int16_of_float64 [OF that(2,3)]
    by (rule discard_fraction_toward_zero)
  have u: "wave ! i = int16_unrepresentable env sample"
    if "\<forall>x. sample = Finite x \<longrightarrow> x \<le> - 32769 \<or> 32768 \<le> x"
  proof (cases sample)
    case (Finite x)
    then have "\<not> (- 32769 < x \<and> x < 32768)" using that by auto
    then have "\<not> (MinInt16 \<le> discard_fraction x \<and> discard_fraction x \<le> MaxInt16)"
      using discard_fraction_int16_range [of x] by blast
    then show ?thesis unfolding w Finite by auto
  qed (simp_all add: w)
  have d: "fdiv (float64_of_int (int i)) (float64_of_int (sint sampleRate)) =
       round64 (of_int (int i) / of_int (sint sampleRate))"
    if "0 < sint sampleRate" "sint sampleRate \<le> 2 ^ 53" "int i \<le> 2 ^ 53"
  proof -
    have "float64_of_int (int i) = Finite (of_int (int i))"
      using that(3) by (intro float64_of_int_exact) simp
    moreover have "float64_of_int (sint sampleRate) = Finite (of_int (sint sampleRate))"
      using that(1,2) by (intro float64_of_int_exact) simp
    moreover have "(of_int (sint sampleRate) :: rat) \<noteq> 0"
      using that(1) by (simp only: of_int_eq_0_iff)
    ultimately show ?thesis by (simp del: of_int_sint of_int_of_nat_eq)
  qed
  from w t u d show ?thesis by blast
qed

text \<open>
  A square wave of amplitude 1000.75 starts with the sample 1000, not 1001, and one of
  amplitude -1000.75 with -1000, not -1001. One of amplitude 40000 is not clamped to
  32767: on \<open>example_env\<close>, which keeps the low 16 bits, it starts with the sample
  -25536.
\<close>

theorem GenerateWave_quantizes_by_truncation_witness:
  "(\<exists>wave. GenerateWave example_env (SquareWave example_env) (Finite 220) (Finite (4003 / 4))
            (Finite 0) 2 1000000000 = Inr wave \<and> length wave = 2 \<and> wave ! 0 = 1000) \<and>
   (\<exists>wave. GenerateWave example_env (SquareWave example_env) (Finite 220) (Finite (- 4003 / 4))
            (Finite 0) 2 1000000000 = Inr wave \<and> length wave = 2 \<and> wave ! 0 = - 1000) \<and>
   (\<exists>wave. GenerateWave example_env (SquareWave example_env) (Finite 220) (Finite 40000)
            (Finite 0) 2 1000000000 = Inr wave \<and> length wave = 2 \<and>
            sint (wave ! 0) = - 25536)"
proof -
  have "fmul (Seconds 1000000000) (float64_of_int (sint (2 :: int64))) =
           Finite (of_int (sint (2 :: int64) * 1))"
    by (rule product_whole_seconds) simp_all
  then have p: "fmul (Seconds 1000000000) (float64_of_int (sint (2 :: int64))) = Finite 2"
    by simp
  have "fdiv (float64_of_int (int 0)) (float64_of_int (sint (2 :: int64))) = Finite 0"
    using float64_of_int_exact [of 0] float64_of_int_exact [of 2] by (simp add: round64_zero)
  moreover have "angle (Finite 0) (Finite 220) (Finite 0) = Finite 0"
    by (rule angle_at_zero) (simp add: pow2_def)
  ultimately have s: "SquareWave example_env
      (fdiv (float64_of_int (int 0)) (float64_of_int (sint (2 :: int64))))
      (Finite 220) (Finite a) (Finite 0) = Finite a" for a
    by (simp add: SquareWave_def example_env_def sin_poly_def round64_zero)
  have run: "\<exists>wave. GenerateWave example_env (SquareWave example_env) (Finite 220) (Finite a)
            (Finite 0) 2 1000000000 = Inr wave \<and> length wave = 2 \<and>
            wave ! 0 = int16_of_float64 example_env (Finite a) \<and>
            (32768 \<le> a \<longrightarrow> wave ! 0 = int16_unrepresentable example_env (Finite a))" for a
  proof -
    from GenerateWave_product [OF p, of example_env "SquareWave example_env" "Finite 220"
        "Finite a" "Finite 0"]
    obtain wave where g: "GenerateWave example_env (SquareWave example_env) (Finite 220)
        (Finite a) (Finite 0) 2 1000000000 = Inr wave" and l: "length wave = 2"
      by (simp add: maxAlloc_def)
    have i: "0 < length wave" using l by simp
    note t = GenerateWave_quantizes_by_truncation [OF g i refl, unfolded s]
    from t [THEN conjunct1]
    have "wave ! 0 = int16_of_float64 example_env (Finite a)" .
    moreover from t [THEN conjunct2, THEN conjunct2, THEN conjunct1]
    have "32768 \<le> a \<longrightarrow> wave ! 0 = int16_unrepresentable example_env (Finite a)"
      by blast
    ultimately show ?thesis using g l by blast
  qed
  have a: "int16_of_float64 example_env (Finite (4003 / 4)) = 1000"
    by (simp add: discard_fraction_def MinInt16_def MaxInt16_def)
  have "discard_fraction (- 4003 / 4) = - 1000"
    by (simp add: discard_fraction_def ceiling_eq_iff)
  then have b: "int16_of_float64 example_env (Finite (- 4003 / 4)) = - 1000"
    by (simp add: MinInt16_def MaxInt16_def)
  have "int16_unrepresentable example_env (Finite 40000) = (word_of_int 40000 :: int16)"
    by (simp add: example_env_def discard_fraction_def)
  then have c: "sint (int16_unrepresentable example_env (Finite 40000)) = - 25536" by simp
  have first: "\<exists>wave. GenerateWave example_env (SquareWave example_env) (Finite 220)
      (Finite (4003 / 4)) (Finite 0) 2 1000000000 = Inr wave \<and> length wave = 2 \<and>
      wave ! 0 = 1000"
    using run [of "4003 / 4"] unfolding a by blast
  have second: "\<exists>wave. GenerateWave example_env (SquareWave example_env) (Finite 220)
      (Finite (- 4003 / 4)) (Finite 0) 2 1000000000 = Inr wave \<and> length wave = 2 \<and>
      wave ! 0 = - 1000"
    using run [of "- 4003 / 4"] unfolding b by blast
  have third: "\<exists>wave. GenerateWave example_env (SquareWave example_env) (Finite 220)
      (Finite 40000) (Finite 0) 2 1000000000 = Inr wave \<and> length wave = 2 \<and>
      sint (wave ! 0) = - 25536"
    using run [of 40000] c by auto
  from first second third show ?thesis by blast
qed

section \<open>The sine wave of the main program\<close>

text \<open>
  \<open>main\<close> generates a sine wave of 220 Hz at 80 percent of full amplitude and phase 0,
  for two seconds at 44100 samples per second. The amplitude \<open>0.8 * amplitude\<close> is a
  constant expression, rounded once.
\<close>

lemma amplitude_80_percent:
  "round64 (8 / 10 * of_int MaxInt16) = Finite (3602769750733619 / 137438953472)"
proof -
  have "round_half_even (8 / 10 * of_int MaxInt16 / pow2 (14 - 52)) = 7205539501467238"
    unfolding MaxInt16_def by code_simp
  from round64_eval [OF _ _ _ _ this] show ?thesis by (simp add: pow2_def MaxInt16_def)
qed

lemma TwoPi64_times_220:
  "fmul TwoPi64 (Finite 220) = Finite (6079423068149441 / 4398046511104)"
proof -
  have "round_half_even (884279719003555 / 140737488355328 * 220 / pow2 (10 - 52)) =
        6079423068149441" by code_simp
  from round64_eval [OF _ _ _ _ this] show ?thesis by (simp add: pow2_def TwoPi64_eq)
qed

lemma time_of_sample_50:
  "fdiv (float64_of_int (int 50)) (float64_of_int (sint (44100 :: int64))) =
   Finite (5228668955133093 / 4611686018427387904)"
proof -
  have "round_half_even (50 / 44100 / pow2 (- 10 - 52)) = 5228668955133093" by code_simp
  from round64_eval [OF _ _ _ _ this]
  have "round64 (50 / 44100) = Finite (5228668955133093 / 4611686018427387904)"
    by (simp add: pow2_def)
  then show ?thesis
    using float64_of_int_exact [of 50] float64_of_int_exact [of 44100] by simp
qed

lemma angle_of_sample_50:
  "angle (Finite (5228668955133093 / 4611686018427387904)) (Finite 220) (Finite 0) =
   Finite (220568637393177 / 140737488355328)"
proof -
  have "round_half_even (6079423068149441 / 4398046511104 *
          (5228668955133093 / 4611686018427387904) / pow2 (0 - 52)) = 7058196396581664"
    by code_simp
  from round64_eval [OF _ _ _ _ this]
  have a: "round64 (6079423068149441 / 4398046511104 *
          (5228668955133093 / 4611686018427387904)) = Finite (220568637393177 / 140737488355328)"
    by (simp add: pow2_def)
  have "round_half_even (220568637393177 / 140737488355328 / pow2 (0 - 52)) = 7058196396581664"
    by code_simp
  from round64_eval [OF _ _ _ _ this]
  have b: "round64 (220568637393177 / 140737488355328) = Finite (220568637393177 / 140737488355328)"
    by (simp add: pow2_def)
  show ?thesis using a b by (simp add: angle_def TwoPi64_times_220)
qed

lemma time_of_sample_0:
  "fdiv (float64_of_int (int 0)) (float64_of_int (sint (44100 :: int64))) = Finite 0"
  using float64_of_int_exact [of 0] float64_of_int_exact [of 44100] by (simp add: round64_zero)

lemma angle_of_sample_0: "angle (Finite 0) (Finite 220) (Finite 0) = Finite 0"
  by (rule angle_at_zero) (simp add: pow2_def)

text \<open>
  The sine near the quarter period, from its Taylor polynomial with remainder.
\<close>

lemma sin_taylor_12:
  fixes x :: real
  shows "(\<Sum>m<12. sin_coeff m * x ^ m) =
    x - x ^ 3 / 6 + x ^ 5 / 120 - x ^ 7 / 5040 + x ^ 9 / 362880 - x ^ 11 / 39916800"
  by (simp add: sin_coeff_def lessThan_nat_numeral lessThan_Suc fact_numeral fact_reduce)

lemma sin_taylor_14:
  fixes x :: real
  shows "(\<Sum>m<14. sin_coeff m * x ^ m) =
    x - x ^ 3 / 6 + x ^ 5 / 120 - x ^ 7 / 5040 + x ^ 9 / 362880 - x ^ 11 / 39916800
      + x ^ 13 / 6227020800"
  by (simp add: sin_coeff_def lessThan_nat_numeral lessThan_Suc fact_numeral fact_reduce)

lemma sin_at_sample_50:
  "99999 / 100000 \<le> sin (real_of_rat (220568637393177 / 140737488355328))"
proof -
  let ?X = "220568637393177 / 140737488355328 :: real"
  have "\<bar>sin ?X - (\<Sum>m<12. sin_coeff m * ?X ^ m)\<bar> \<le> inverse (fact 12) * \<bar>?X\<bar> ^ 12"
    by (rule Maclaurin_sin_bound)
  then have "(\<Sum>m<12. sin_coeff m * ?X ^ m) - inverse (fact 12) * \<bar>?X\<bar> ^ 12 \<le> sin ?X"
    by linarith
  moreover have "99999 / 100000 \<le>
      (\<Sum>m<12. sin_coeff m * ?X ^ m) - inverse (fact 12) * \<bar>?X\<bar> ^ 12"
    unfolding sin_taylor_12 by (simp add: fact_numeral power_divide)
  ultimately have "99999 / 100000 \<le> sin ?X" by linarith
  then show ?thesis by (simp add: of_rat_divide)
qed

lemma round64_near:
  assumes "\<bar>x\<bar> \<le> 32768"
  shows "\<exists>y. round64 x = Finite y \<and> \<bar>y - x\<bar> \<le> 1 / 10 ^ 9"
proof (cases "x = 0")
  case True
  then show ?thesis by (simp add: round64_zero)
next
  case False
  have "\<bar>x\<bar> \<le> pow2 1023" using assms by (simp add: pow2_def)
  then obtain y where y: "round64 x = Finite y" using round64_finite by blast
  have "\<bar>x\<bar> * pow2 (- 52) \<le> 32768 * pow2 (- 52)"
    using assms pow2_pos [of "- 52"] by (simp add: mult_right_mono)
  also have "\<dots> \<le> 1 / 10 ^ 9" by (simp add: pow2_def)
  finally have "\<bar>x\<bar> * pow2 (- 52) \<le> 1 / 10 ^ 9" .
  moreover have "pow2 (- 1074) \<le> 1 / 10 ^ 9" by (simp add: pow2_def)
  ultimately have "ulp x \<le> 1 / 10 ^ 9" using ulp_le [OF False] by simp
  then have "\<bar>y - x\<bar> \<le> 1 / 10 ^ 9" using round64_error [OF y] ulp_pos [of x] by simp
  then show ?thesis using y by blast
qed

lemma sample_of_small_sine:
  assumes "math_Sin env v = Finite s" and "\<bar>s\<bar> \<le> 1 / 10 ^ 6"
  shows "int16_of_float64 env
           (fmul (Finite (3602769750733619 / 137438953472)) (math_Sin env v)) = 0"
proof -
  let ?x = "3602769750733619 / 137438953472 * s"
  have "\<bar>?x\<bar> = 3602769750733619 / 137438953472 * \<bar>s\<bar>" by (simp add: abs_mult)
  also have "\<dots> \<le> 3602769750733619 / 137438953472 * (1 / 10 ^ 6)"
    using assms(2) by (intro mult_left_mono) simp_all
  also have "\<dots> \<le> 1 / 10" by simp
  finally have x: "\<bar>?x\<bar> \<le> 1 / 10" .
  then have "\<bar>?x\<bar> \<le> 32768" by linarith
  from round64_near [OF this] obtain y where y: "round64 ?x = Finite y" "\<bar>y - ?x\<bar> \<le> 1 / 10 ^ 9"
    by blast
  have e: "(1 :: rat) / 10 ^ 9 \<le> 1 / 10" by simp
  have "\<bar>y\<bar> < 1" using x y(2) e by linarith
  then have "discard_fraction y = 0"
    by (auto simp: discard_fraction_def floor_eq_iff ceiling_eq_iff abs_less_iff)
  moreover have "fmul (Finite (3602769750733619 / 137438953472)) (math_Sin env v) = Finite y"
    unfolding assms(1) using y(1) by simp
  ultimately show ?thesis by (simp add: MinInt16_def MaxInt16_def)
qed

lemma sample_of_peak_sine:
  assumes "math_Sin env v = Finite s" and "999989 / 10 ^ 6 \<le> s" and "s \<le> 1000001 / 10 ^ 6"
  shows "sint (int16_of_float64 env
           (fmul (Finite (3602769750733619 / 137438953472)) (math_Sin env v))) = 26213"
proof -
  let ?a = "3602769750733619 / 137438953472 :: rat"
  let ?x = "?a * s"
  have "?a * (999989 / 10 ^ 6) \<le> ?x" using assms(2) by (intro mult_left_mono) simp_all
  moreover have "26213 + 3 / 10 \<le> ?a * (999989 / 10 ^ 6)" by simp
  ultimately have lo: "26213 + 3 / 10 \<le> ?x" by linarith
  have "?x \<le> ?a * (1000001 / 10 ^ 6)" using assms(3) by (intro mult_left_mono) simp_all
  moreover have "?a * (1000001 / 10 ^ 6) \<le> 26213 + 7 / 10" by simp
  ultimately have hi: "?x \<le> 26213 + 7 / 10" by linarith
  have "\<bar>?x\<bar> \<le> 32768" using lo hi by linarith
  from round64_near [OF this] obtain y where y: "round64 ?x = Finite y" "\<bar>y - ?x\<bar> \<le> 1 / 10 ^ 9"
    by blast
  have e: "(1 :: rat) / 10 ^ 9 \<le> 1 / 10" by simp
  have b: "26213 \<le> y" "y < 26214" using lo hi y(2) e by linarith+
  then have "discard_fraction y = 26213" by (simp add: discard_fraction_def floor_eq_iff)
  moreover have "- 32769 < y" "y < 32768" using b by simp_all
  moreover have "fmul (Finite ?a) (math_Sin env v) = Finite y"
    unfolding assms(1) using y(1) by simp
  ultimately show ?thesis using sint_int16_of_float64 [of y env] by simp
qed

lemma sin_accurate_at_zero:
  assumes "\<bar>real_of_rat s - sin (real_of_rat 0)\<bar> \<le> 1 / 10 ^ 6"
  shows "\<bar>s\<bar> \<le> 1 / 10 ^ 6"
proof -
  have "real_of_rat \<bar>s\<bar> = \<bar>real_of_rat s\<bar>" by simp
  also have "\<dots> \<le> 1 / 10 ^ 6" using assms by simp
  also have "\<dots> = real_of_rat (1 / 10 ^ 6)" by (simp add: of_rat_divide of_rat_power)
  finally show ?thesis by (simp only: of_rat_less_eq)
qed

lemma sin_accurate_at_sample_50:
  assumes "\<bar>real_of_rat s - sin (real_of_rat (220568637393177 / 140737488355328))\<bar> \<le> 1 / 10 ^ 6"
  shows "999989 / 10 ^ 6 \<le> s \<and> s \<le> 1000001 / 10 ^ 6"
proof -
  let ?S = "sin (real_of_rat (220568637393177 / 140737488355328))"
  have "99999 / 100000 \<le> ?S" by (rule sin_at_sample_50)
  moreover have "?S \<le> 1" by simp
  moreover have e: "(1 :: real) / 10 ^ 6 = 1 / 1000000" by simp
  ultimately have "999989 / 1000000 \<le> real_of_rat s" "real_of_rat s \<le> 1000001 / 1000000"
    using assms unfolding e by linarith+
  moreover have "real_of_rat (999989 / 10 ^ 6) = 999989 / 1000000"
    "real_of_rat (1000001 / 10 ^ 6) = 1000001 / 1000000"
    by (simp_all add: of_rat_divide of_rat_power)
  ultimately have "real_of_rat (999989 / 10 ^ 6) \<le> real_of_rat s"
    "real_of_rat s \<le> real_of_rat (1000001 / 10 ^ 6)"
    by simp_all
  then show ?thesis by (simp only: of_rat_less_eq)
qed

text \<open>
  Claim C8. Let \<open>math.Sin\<close> be within \<open>10 ^ - 6\<close> of the sine on the arguments from 0 to
  2. Then the call of \<open>main\<close>, \<open>GenerateWave(SineWave, 220.0, 0.8*32767, 0.0, 44100, 2s)\<close>,
  returns 88200 samples. Sample 0 is 0. Sample 50, taken at the last sample time not
  after the quarter period \<open>1 / (4 * 220)\<close>, is 26213: less than one quantization step
  from \<open>0.8 * 32767 = 26213.6\<close>.
\<close>

theorem main_sine_wave_scenario:
  assumes "\<forall>x. 0 \<le> x \<and> x \<le> 2 \<longrightarrow>
             (\<exists>s. math_Sin env (Finite x) = Finite s \<and>
                  \<bar>real_of_rat s - sin (real_of_rat x)\<bar> \<le> 1 / 10 ^ 6)"
  shows "\<exists>sineWave.
           GenerateWave env (SineWave env) (Finite 220) (round64 (8 / 10 * of_int MaxInt16))
             (Finite 0) 44100 2000000000 = Inr sineWave \<and>
           length sineWave = 88200 \<and>
           sineWave ! 0 = 0 \<and>
           sint (sineWave ! 50) = 26213 \<and>
           \<bar>of_int (sint (sineWave ! 50)) - 8 / 10 * of_int MaxInt16\<bar> < (1 :: rat) \<and>
           (50 :: rat) / 44100 \<le> 1 / (4 * 220) \<and> 1 / (4 * 220) < (51 :: rat) / 44100"
proof -
  let ?a = "Finite (3602769750733619 / 137438953472)"
  let ?F = "\<lambda>j. int16_of_float64 env
            (SineWave env (fdiv (float64_of_int (int j)) (float64_of_int (sint (44100 :: int64))))
               (Finite 220) ?a (Finite 0))"
  have "fmul (Seconds 2000000000) (float64_of_int (sint (44100 :: int64))) =
        Finite (of_int (sint (44100 :: int64) * 2))"
    by (rule product_whole_seconds) simp_all
  then have p: "fmul (Seconds 2000000000) (float64_of_int (sint (44100 :: int64))) = Finite 88200"
    by simp
  have g: "GenerateWave env (SineWave env) (Finite 220) ?a (Finite 0) 44100 2000000000 =
           Inr (map ?F [0..<88200])"
    using GenerateWave_product [OF p, of env "SineWave env" "Finite 220" ?a "Finite 0"]
    by (simp add: maxAlloc_def)
  obtain s0 where s0: "math_Sin env (Finite 0) = Finite s0"
    "\<bar>real_of_rat s0 - sin (real_of_rat 0)\<bar> \<le> 1 / 10 ^ 6"
    using assms [rule_format, of 0] by auto
  have f0: "?F 0 = 0"
    unfolding SineWave_def time_of_sample_0 angle_of_sample_0
    by (rule sample_of_small_sine [OF s0(1) sin_accurate_at_zero [OF s0(2)]])
  obtain s where s: "math_Sin env (Finite (220568637393177 / 140737488355328)) = Finite s"
    "\<bar>real_of_rat s - sin (real_of_rat (220568637393177 / 140737488355328))\<bar> \<le> 1 / 10 ^ 6"
    using assms [rule_format, of "220568637393177 / 140737488355328"] by auto
  have f50: "sint (?F 50) = 26213"
    unfolding SineWave_def time_of_sample_50 angle_of_sample_50
    using sin_accurate_at_sample_50 [OF s(2)] by (intro sample_of_peak_sine [OF s(1)]) simp_all
  have n0: "map ?F [0..<88200] ! 0 = ?F 0" by (subst nth_map) simp_all
  have n50: "map ?F [0..<88200] ! 50 = ?F 50" by (subst nth_map) simp_all
  show ?thesis
    unfolding amplitude_80_percent g
    by (simp only: sum.inject ex_simps simp_thms n0 n50 f0 f50 length_map length_upt)
       (simp add: MaxInt16_def)
qed

text \<open>
  The Taylor polynomial of \<open>example_env\<close> is that close to the sine on \<open>[0, 2]\<close>, so the
  scenario runs on it.
\<close>

lemma example_env_sin_accurate:
  assumes "0 \<le> x" and "x \<le> 2"
  shows "\<exists>s. math_Sin example_env (Finite x) = Finite s \<and>
             \<bar>real_of_rat s - sin (real_of_rat x)\<bar> \<le> 1 / 10 ^ 6"
proof -
  let ?X = "real_of_rat x"
  let ?P = "real_of_rat (sin_poly x)"
  have X: "0 \<le> ?X" "?X \<le> 2"
    using assms of_rat_less_eq [of x 2, where ?'a = real] by simp_all
  have P: "?P = (\<Sum>m<14. sin_coeff m * ?X ^ m)"
    unfolding sin_taylor_14
    by (simp add: sin_poly_def of_rat_add of_rat_diff of_rat_divide of_rat_power)
  have "\<bar>?X\<bar> ^ 14 \<le> 2 ^ 14" using X by (intro power_mono) simp_all
  then have "inverse (fact 14) * \<bar>?X\<bar> ^ 14 \<le> inverse (fact 14) * 2 ^ 14"
    by (intro mult_left_mono) simp_all
  also have "\<dots> \<le> (2 :: real) / 10000000" by (simp add: fact_numeral)
  finally have "inverse (fact 14) * \<bar>?X\<bar> ^ 14 \<le> (2 :: real) / 10000000" .
  then have t: "\<bar>sin ?X - ?P\<bar> \<le> 2 / 10000000"
    using Maclaurin_sin_bound [of ?X 14] unfolding P by linarith
  have "\<bar>sin ?X\<bar> \<le> 1" by simp
  then have "\<bar>?P\<bar> \<le> 32768" using t by linarith
  then have "real_of_rat \<bar>sin_poly x\<bar> \<le> real_of_rat 32768" by simp
  then have "\<bar>sin_poly x\<bar> \<le> 32768" by (simp only: of_rat_less_eq)
  from round64_near [OF this] obtain s where s: "round64 (sin_poly x) = Finite s"
    "\<bar>s - sin_poly x\<bar> \<le> 1 / 10 ^ 9" by blast
  have "real_of_rat \<bar>s - sin_poly x\<bar> \<le> real_of_rat (1 / 10 ^ 9)"
    using s(2) by (simp only: of_rat_less_eq)
  then have r: "\<bar>real_of_rat s - ?P\<bar> \<le> 1 / 1000000000"
    by (simp add: of_rat_diff of_rat_divide of_rat_power flip: abs_of_rat)
  have "\<bar>real_of_rat s - sin ?X\<bar> \<le> 1 / 1000000" using r t by linarith
  then show ?thesis using s(1) by (simp add: example_env_def)
qed

theorem main_sine_wave_scenario_witness:
  "\<exists>sineWave.
     GenerateWave example_env (SineWave example_env) (Finite 220)
       (round64 (8 / 10 * of_int MaxInt16)) (Finite 0) 44100 2000000000 = Inr sineWave \<and>
     length sineWave = 88200 \<and> sineWave ! 0 = 0 \<and> sint (sineWave ! 50) = 26213"
proof -
  have "\<forall>x. 0 \<le> x \<and> x \<le> 2 \<longrightarrow>
          (\<exists>s. math_Sin example_env (Finite x) = Finite s \<and>
               \<bar>real_of_rat s - sin (real_of_rat x)\<bar> \<le> 1 / 10 ^ 6)"
    using example_env_sin_accurate by blast
  from main_sine_wave_scenario [OF this] show ?thesis by blast
qed

section \<open>Properties of the waveforms\<close>

subsection \<open>The double nearest to \<open>\<pi>\<close>\<close>

text \<open>
  The partial sums of the arc tangent series enclose its value; with Machin's formula
  they place \<open>\<pi>\<close> between \<open>1.20 * 10 ^ - 16\<close> and \<open>1.23 * 10 ^ - 16\<close> above the double
  \<open>math.Pi\<close>. The real sine of that double is therefore positive and not zero, and the
  real sine of its negation is negative.
\<close>

lemma arctan_partial_sums:
  fixes x :: real
  assumes "0 \<le> x" and "x \<le> 1"
  shows "(\<Sum>i<2 * n. (- 1) ^ i * (1 / real (i * 2 + 1) * x ^ (i * 2 + 1))) \<le> arctan x"
    and "arctan x \<le> (\<Sum>i<2 * n + 1. (- 1) ^ i * (1 / real (i * 2 + 1) * x ^ (i * 2 + 1)))"
proof -
  let ?a = "\<lambda>i. 1 / real (i * 2 + 1) * x ^ (i * 2 + 1)"
  have ax: "\<bar>x\<bar> \<le> 1" using assms by simp
  have z: "?a \<longlonglongrightarrow> 0" by (rule zeroseq_arctan_series [OF ax])
  have p: "0 \<le> ?a i" for i using assms by simp
  have m: "?a (Suc i) \<le> ?a i" for i
  proof -
    have "x ^ (Suc i * 2 + 1) = x ^ (i * 2 + 1) * x ^ 2" by (simp add: power2_eq_square)
    also have "\<dots> \<le> x ^ (i * 2 + 1) * 1"
      using assms by (intro mult_left_mono) (simp_all add: power_le_one)
    finally have a: "x ^ (Suc i * 2 + 1) \<le> x ^ (i * 2 + 1)" by simp
    have b: "1 / real (Suc i * 2 + 1) \<le> 1 / real (i * 2 + 1)" by (simp add: field_simps)
    show ?thesis by (rule mult_mono [OF b a]) (use assms in simp_all)
  qed
  have s: "arctan x = (\<Sum>k. (- 1) ^ k * ?a k)" by (rule arctan_series [OF ax])
  show "(\<Sum>i<2 * n. (- 1) ^ i * ?a i) \<le> arctan x"
    unfolding s by (rule summable_Leibniz'(2) [OF z p m])
  show "arctan x \<le> (\<Sum>i<2 * n + 1. (- 1) ^ i * ?a i)"
    unfolding s by (rule summable_Leibniz'(4) [OF z p m])
qed

lemma pi_lower: "884279719003555 / 281474976710656 + 120 / 10 ^ 18 < pi"
proof -
  have "pi = 16 * arctan (1 / 5) - 4 * arctan (1 / 239)" using machin by simp
  then show ?thesis
    using arctan_partial_sums(1) [of "1 / 5" 6] arctan_partial_sums(2) [of "1 / 239" 2]
    by (simp add: eval_nat_numeral)
qed

lemma pi_upper: "pi < 884279719003555 / 281474976710656 + 123 / 10 ^ 18"
proof -
  have "pi = 16 * arctan (1 / 5) - 4 * arctan (1 / 239)" using machin by simp
  then show ?thesis
    using arctan_partial_sums(2) [of "1 / 5" 6] arctan_partial_sums(1) [of "1 / 239" 2]
    by (simp add: eval_nat_numeral)
qed

lemma two_pi_error:
  "\<bar>2 * pi - real_of_rat (884279719003555 / 140737488355328)\<bar> \<le> 246 / 10 ^ 18"
  using pi_lower pi_upper by (simp add: of_rat_divide)

lemma sin_Pi64_pos: "0 < sin (real_of_rat (884279719003555 / 281474976710656))"
  using pi_lower by (intro sin_gt_zero) (simp_all add: of_rat_divide)

lemma sin_Pi64_small: "sin (real_of_rat (884279719003555 / 281474976710656)) \<le> 123 / 10 ^ 18"
proof -
  let ?x = "real_of_rat (884279719003555 / 281474976710656)"
  have "sin ?x = sin (pi - ?x)" by simp
  also have "\<dots> \<le> pi - ?x" using pi_lower by (intro sin_x_le_x) (simp add: of_rat_divide)
  also have "\<dots> \<le> 123 / 10 ^ 18" using pi_upper by (simp add: of_rat_divide)
  finally show ?thesis .
qed

lemma sin_minus_Pi64_neg: "sin (real_of_rat (- (884279719003555 / 281474976710656))) < 0"
  using sin_Pi64_pos by (simp add: of_rat_minus)

lemma sin_TwoPi64_neg: "sin (real_of_rat (884279719003555 / 140737488355328)) < 0"
  using pi_lower pi_upper by (intro sin_lt_zero) (simp_all add: of_rat_divide)

subsection \<open>The computed argument and the argument of the specification\<close>

text \<open>
  The argument is computed by three rounded operations on the double \<open>2 * math.Pi\<close>.
  Its distance from the real number \<open>2 * \<pi> * f * t + p\<close> is at most the sum of the three
  rounding errors and of the error of the constant, carried through the products.
\<close>

lemma round64_error_real:
  assumes "round64 x = Finite y"
  shows "\<bar>real_of_rat y - real_of_rat x\<bar> \<le> real_of_rat (ulp x) / 2"
proof -
  have "real_of_rat \<bar>y - x\<bar> \<le> real_of_rat (ulp x / 2)"
    using round64_error [OF assms] by (simp only: of_rat_less_eq)
  then show ?thesis by (simp add: of_rat_diff of_rat_divide flip: abs_of_rat)
qed

lemma angle_error:
  assumes w: "round64 (884279719003555 / 140737488355328 * f) = Finite w"
    and y: "round64 (w * t) = Finite y"
    and x: "round64 (y + p) = Finite x"
  shows "\<bar>real_of_rat x - (2 * pi * real_of_rat f * real_of_rat t + real_of_rat p)\<bar> \<le>
         real_of_rat (\<bar>t\<bar> * (\<bar>f\<bar> * (246 / 10 ^ 18) +
                        ulp (884279719003555 / 140737488355328 * f) / 2) +
                      ulp (w * t) / 2 + ulp (y + p) / 2)"
proof -
  let ?c = "884279719003555 / 140737488355328 :: rat"
  let ?C = "real_of_rat ?c"
  let ?F = "real_of_rat f" and ?T = "real_of_rat t" and ?P = "real_of_rat p"
  let ?W = "real_of_rat w" and ?Y = "real_of_rat y" and ?X = "real_of_rat x"
  let ?U1 = "real_of_rat (ulp (?c * f))" and ?U2 = "real_of_rat (ulp (w * t))"
  let ?U3 = "real_of_rat (ulp (y + p))"
  have e1: "\<bar>?W - ?C * ?F\<bar> \<le> ?U1 / 2"
    using round64_error_real [OF w] unfolding of_rat_mult .
  have e2: "\<bar>?Y - ?W * ?T\<bar> \<le> ?U2 / 2"
    using round64_error_real [OF y] unfolding of_rat_mult .
  have e3: "\<bar>?X - (?Y + ?P)\<bar> \<le> ?U3 / 2"
    using round64_error_real [OF x] unfolding of_rat_add .
  have k: "\<bar>?C - 2 * pi\<bar> \<le> 246 / 10 ^ 18" using two_pi_error by (simp add: abs_minus_commute)
  have "\<bar>(?W - ?C * ?F) * ?T\<bar> = \<bar>?T\<bar> * \<bar>?W - ?C * ?F\<bar>"
    by (simp only: abs_mult mult.commute)
  also have "\<dots> \<le> \<bar>?T\<bar> * (?U1 / 2)" by (rule mult_left_mono [OF e1]) simp
  finally have t1: "\<bar>(?W - ?C * ?F) * ?T\<bar> \<le> \<bar>?T\<bar> * (?U1 / 2)" .
  have "\<bar>(?C - 2 * pi) * ?F * ?T\<bar> = \<bar>?T\<bar> * (\<bar>?F\<bar> * \<bar>?C - 2 * pi\<bar>)"
    by (simp only: abs_mult mult.commute)
  also have "\<dots> \<le> \<bar>?T\<bar> * (\<bar>?F\<bar> * (246 / 10 ^ 18))"
    by (intro mult_left_mono k) simp_all
  finally have t2: "\<bar>(?C - 2 * pi) * ?F * ?T\<bar> \<le> \<bar>?T\<bar> * (\<bar>?F\<bar> * (246 / 10 ^ 18))" .
  have "?X - (2 * pi * ?F * ?T + ?P) =
        (?X - (?Y + ?P)) + (?Y - ?W * ?T) + (?W - ?C * ?F) * ?T + (?C - 2 * pi) * ?F * ?T"
    by (simp add: algebra_simps)
  then have "\<bar>?X - (2 * pi * ?F * ?T + ?P)\<bar> \<le>
        ?U3 / 2 + ?U2 / 2 + \<bar>?T\<bar> * (?U1 / 2) + \<bar>?T\<bar> * (\<bar>?F\<bar> * (246 / 10 ^ 18))"
    using e2 e3 t1 t2 by linarith
  also have "\<dots> = real_of_rat (\<bar>t\<bar> * (\<bar>f\<bar> * (246 / 10 ^ 18) + ulp (?c * f) / 2) +
                      ulp (w * t) / 2 + ulp (y + p) / 2)"
    by (simp add: of_rat_add of_rat_mult of_rat_divide of_rat_power algebra_simps
        flip: abs_of_rat)
  finally show ?thesis .
qed

lemma sin_lipschitz: "\<bar>sin x - sin (y :: real)\<bar> \<le> \<bar>x - y\<bar>"
proof -
  have "\<bar>sin x - sin y\<bar> = 2 * \<bar>sin ((x - y) / 2)\<bar> * \<bar>cos ((x + y) / 2)\<bar>"
    by (simp add: sin_diff_sin abs_mult)
  also have "\<dots> \<le> 2 * \<bar>sin ((x - y) / 2)\<bar> * 1"
    by (intro mult_left_mono) simp_all
  also have "\<dots> \<le> 2 * \<bar>(x - y) / 2\<bar>"
    using abs_sin_x_le_abs_x [of "(x - y) / 2"] by simp
  finally show ?thesis by simp
qed

subsection \<open>The argument at half a period, at a full period and at sample 50\<close>

lemma round64_TwoPi64:
  "round64 (884279719003555 / 140737488355328) = Finite (884279719003555 / 140737488355328)"
proof -
  have "round_half_even (884279719003555 / 140737488355328 / pow2 (2 - 52)) = 7074237752028440"
    by code_simp
  from round64_eval [OF _ _ _ _ this] show ?thesis by (simp add: pow2_def)
qed

lemma round64_Pi64:
  "round64 (884279719003555 / 281474976710656) = Finite (884279719003555 / 281474976710656)"
proof -
  have "round_half_even (884279719003555 / 281474976710656 / pow2 (1 - 52)) = 7074237752028440"
    by code_simp
  from round64_eval [OF _ _ _ _ this] show ?thesis by (simp add: pow2_def)
qed

lemma round64_minus_Pi64:
  "round64 (- (884279719003555 / 281474976710656)) = Finite (- (884279719003555 / 281474976710656))"
proof -
  have "round_half_even (- (884279719003555 / 281474976710656) / pow2 (1 - 52)) =
        - 7074237752028440"
    by code_simp
  from round64_eval [OF _ _ _ _ this] show ?thesis by (simp add: pow2_def)
qed

lemma angle_at_half:
  "angle (Finite (1 / 2)) (Finite 1) (Finite 0) = Finite (884279719003555 / 281474976710656)"
  by (simp add: angle_def TwoPi64_eq round64_TwoPi64 round64_Pi64)

lemma angle_at_minus_half:
  "angle (Finite (- (1 / 2))) (Finite 1) (Finite 0) =
   Finite (- (884279719003555 / 281474976710656))"
  by (simp add: angle_def TwoPi64_eq round64_TwoPi64 round64_minus_Pi64)

lemma angle_at_one:
  "angle (Finite 1) (Finite 1) (Finite 0) = Finite (884279719003555 / 140737488355328)"
  by (simp add: angle_def TwoPi64_eq round64_TwoPi64)

lemma round64_angle_of_sample_50:
  "round64 (6079423068149441 / 4398046511104 * (5228668955133093 / 4611686018427387904)) =
   Finite (220568637393177 / 140737488355328)"
proof -
  have "round_half_even (6079423068149441 / 4398046511104 *
          (5228668955133093 / 4611686018427387904) / pow2 (0 - 52)) = 7058196396581664"
    by code_simp
  from round64_eval [OF _ _ _ _ this] show ?thesis by (simp add: pow2_def)
qed

lemma round64_angle_50_exact:
  "round64 (220568637393177 / 140737488355328) = Finite (220568637393177 / 140737488355328)"
proof -
  have "round_half_even (220568637393177 / 140737488355328 / pow2 (0 - 52)) = 7058196396581664"
    by code_simp
  from round64_eval [OF _ _ _ _ this] show ?thesis by (simp add: pow2_def)
qed

lemma angle_error_at_sample_50:
  "\<bar>5228668955133093 / 4611686018427387904\<bar> *
     (\<bar>220\<bar> * (246 / 10 ^ 18) + ulp (884279719003555 / 140737488355328 * 220) / 2) +
   ulp (6079423068149441 / 4398046511104 * (5228668955133093 / 4611686018427387904)) / 2 +
   ulp (220568637393177 / 140737488355328 + 0) / 2 \<le> (1 / 10 ^ 9 :: rat)"
proof -
  have a: "ulp (884279719003555 / 140737488355328 * 220) = pow2 (- 42)"
    using ulp_eqI [of 10 "884279719003555 / 140737488355328 * 220"] by (simp add: pow2_def)
  have b: "ulp (6079423068149441 / 4398046511104 * (5228668955133093 / 4611686018427387904)) =
           pow2 (- 52)"
    using ulp_eqI [of 0 "6079423068149441 / 4398046511104 *
                          (5228668955133093 / 4611686018427387904)"]
    by (simp add: pow2_def)
  have c: "ulp (220568637393177 / 140737488355328 + 0) = pow2 (- 52)"
    using ulp_eqI [of 0 "220568637393177 / 140737488355328"] by (simp add: pow2_def)
  show ?thesis unfolding a b c by (simp add: pow2_def)
qed

lemma angle_error_at_half:
  "\<bar>1 / 2\<bar> * (\<bar>1\<bar> * (246 / 10 ^ 18) + ulp (884279719003555 / 140737488355328 * 1) / 2) +
   ulp (884279719003555 / 140737488355328 * (1 / 2)) / 2 +
   ulp (884279719003555 / 281474976710656 + 0) / 2 \<le> (1 / 10 ^ 9 :: rat)"
proof -
  have a: "ulp (884279719003555 / 140737488355328 * 1) = pow2 (- 50)"
    using ulp_eqI [of 2 "884279719003555 / 140737488355328"] by (simp add: pow2_def)
  have b: "ulp (884279719003555 / 140737488355328 * (1 / 2)) = pow2 (- 51)"
    using ulp_eqI [of 1 "884279719003555 / 281474976710656"] by (simp add: pow2_def)
  have c: "ulp (884279719003555 / 281474976710656 + 0) = pow2 (- 51)"
    using ulp_eqI [of 1 "884279719003555 / 281474976710656"] by (simp add: pow2_def)
  show ?thesis unfolding a b c by (simp add: pow2_def)
qed

subsection \<open>The square wave\<close>

text \<open>
  At \<open>t = - 1/2\<close> and frequency 1 the computed argument is the negated double
  \<open>math.Pi\<close>, and at \<open>t = 1\<close> it is the double \<open>2 * math.Pi\<close>. The real sine of both is
  negative. In every environment whose \<open>math.Sin\<close> has the sign of the sine there, the
  square wave is at the negated amplitude.
\<close>

lemma SquareWave_tie_any_env:
  assumes "math_Sin env (Finite (- (884279719003555 / 281474976710656))) = Finite s" and "s < 0"
  shows "SquareWave env (Finite (- (1 / 2))) (Finite 1) amplitude (Finite 0) = fneg amplitude"
  using assms by (simp add: SquareWave_def angle_at_minus_half)

lemma SquareWave_full_period_any_env:
  assumes "math_Sin env (Finite (884279719003555 / 140737488355328)) = Finite s" and "s < 0"
  shows "SquareWave env (Finite 1) (Finite 1) amplitude (Finite 0) = fneg amplitude"
  using assms by (simp add: SquareWave_def angle_at_one)

text \<open>
  The polynomial of \<open>example_env\<close> is not close to the sine at this argument, but it has
  its sign.
\<close>

lemma sin_poly_at_minus_Pi64:
  "- (1 / 10000) \<le> sin_poly (- (884279719003555 / 281474976710656)) \<and>
   sin_poly (- (884279719003555 / 281474976710656)) \<le> - (1 / 100000)"
  by (simp add: sin_poly_def power_divide)

lemma example_env_sin_at_minus_Pi64:
  "\<exists>s. math_Sin example_env (Finite (- (884279719003555 / 281474976710656))) = Finite s \<and> s < 0"
proof -
  let ?z = "sin_poly (- (884279719003555 / 281474976710656))"
  have "\<bar>?z\<bar> \<le> 32768" using sin_poly_at_minus_Pi64 by linarith
  from round64_near [OF this] obtain s where s: "round64 ?z = Finite s"
    "\<bar>s - ?z\<bar> \<le> 1 / 10 ^ 9" by blast
  have "(1 :: rat) / 10 ^ 9 < 1 / 100000" by simp
  then have "s < 0" using s(2) sin_poly_at_minus_Pi64 by linarith
  then show ?thesis using s(1) by (simp add: example_env_def)
qed

text \<open>
  Claim C4 says that the square wave is at \<open>+a\<close> wherever \<open>sin (2 * \<pi> * f * t + p) \<ge> 0\<close>,
  a sine of exactly zero included. At \<open>t = - 1/2\<close>, \<open>f = 1\<close>, \<open>p = 0\<close> that sine is
  \<open>sin (- \<pi>) = 0\<close>, but the program returns \<open>- a\<close>: its argument is the double
  \<open>- math.Pi\<close>, which lies above \<open>- \<pi>\<close>, where the sine is negative.
\<close>

theorem SquareWave_tie_counterexample:
  "SquareWave example_env (Finite (- (1 / 2))) (Finite 1) (Finite 1000) (Finite 0) =
     Finite (- 1000) \<and>
   0 \<le> sin (2 * pi * 1 * (- (1 / 2)) + 0 :: real) \<and>
   angle (Finite (- (1 / 2))) (Finite 1) (Finite 0) =
     Finite (- (884279719003555 / 281474976710656)) \<and>
   sin (real_of_rat (- (884279719003555 / 281474976710656))) < 0"
proof -
  from example_env_sin_at_minus_Pi64 obtain s
    where "math_Sin example_env (Finite (- (884279719003555 / 281474976710656))) = Finite s"
      "s < 0" by blast
  from SquareWave_tie_any_env [OF this, of "Finite 1000"]
  show ?thesis using angle_at_minus_half sin_minus_Pi64_neg by simp
qed

text \<open>
  Claim C4, as the code has it. \<open>SquareWave\<close> returns the amplitude or its negation and
  nothing else: the amplitude when \<open>math.Sin\<close> of the computed argument is \<open>>= 0\<close>, the
  negation otherwise. The computed argument is the rounded sum of \<open>phase\<close> and the
  rounded product of \<open>t\<close> and the rounded product of \<open>frequency\<close> and the double
  \<open>2 * math.Pi\<close>. For finite \<open>t\<close>, \<open>f\<close>, \<open>p\<close> whose three operations give finite \<open>w\<close>,
  \<open>y\<close>, \<open>x\<close>, and a finite \<open>math.Sin(x) = s\<close>:

    \<^item> the result is the amplitude when \<open>0 \<le> s\<close>, a computed sine of exactly zero
      included, and the negated amplitude when \<open>s < 0\<close>;

    \<^item> \<open>x\<close> is within \<open>E = |t| * (|f| * 2.46 * 10 ^ - 16 + ulp (c * f) / 2) + ulp (w * t) / 2
      + ulp (y + p) / 2\<close> of \<open>2 * \<pi> * f * t + p\<close>, \<open>c\<close> being the double \<open>2 * math.Pi\<close>;

    \<^item> when \<open>s\<close> is within \<open>e\<close> of the sine of \<open>x\<close> and \<open>|sin (2 * \<pi> * f * t + p)|\<close> exceeds
      \<open>e + E\<close>, the result is the amplitude if \<open>sin (2 * \<pi> * f * t + p) \<ge> 0\<close> and the
      negated amplitude otherwise.
\<close>

theorem SquareWave_follows_computed_sine:
  "(SquareWave env t frequency amplitude phase = amplitude \<or>
    SquareWave env t frequency amplitude phase = fneg amplitude) \<and>
   SquareWave env t frequency amplitude phase =
     (if fge (math_Sin env
               (fadd (fmul (fmul (Finite (884279719003555 / 140737488355328)) frequency) t)
                  phase))
             (Finite 0)
      then amplitude else fneg amplitude) \<and>
   (\<forall>w y x s.
      round64 (884279719003555 / 140737488355328 * fr) = Finite w \<and>
      round64 (w * tr) = Finite y \<and> round64 (y + pr) = Finite x \<and>
      math_Sin env (Finite x) = Finite s \<longrightarrow>
      SquareWave env (Finite tr) (Finite fr) amplitude (Finite pr) =
        (if 0 \<le> s then amplitude else fneg amplitude) \<and>
      \<bar>real_of_rat x - (2 * pi * real_of_rat fr * real_of_rat tr + real_of_rat pr)\<bar> \<le>
        real_of_rat (\<bar>tr\<bar> * (\<bar>fr\<bar> * (246 / 10 ^ 18) +
                       ulp (884279719003555 / 140737488355328 * fr) / 2) +
                     ulp (w * tr) / 2 + ulp (y + pr) / 2) \<and>
      (\<forall>e. \<bar>real_of_rat s - sin (real_of_rat x)\<bar> \<le> e \<and>
           e + real_of_rat (\<bar>tr\<bar> * (\<bar>fr\<bar> * (246 / 10 ^ 18) +
                       ulp (884279719003555 / 140737488355328 * fr) / 2) +
                     ulp (w * tr) / 2 + ulp (y + pr) / 2)
             < \<bar>sin (2 * pi * real_of_rat fr * real_of_rat tr + real_of_rat pr)\<bar> \<longrightarrow>
           SquareWave env (Finite tr) (Finite fr) amplitude (Finite pr) =
             (if 0 \<le> sin (2 * pi * real_of_rat fr * real_of_rat tr + real_of_rat pr)
              then amplitude else fneg amplitude)))"
proof (intro conjI allI impI)
  show "SquareWave env t frequency amplitude phase = amplitude \<or>
        SquareWave env t frequency amplitude phase = fneg amplitude"
    by (simp add: SquareWave_def)
  show "SquareWave env t frequency amplitude phase =
     (if fge (math_Sin env
               (fadd (fmul (fmul (Finite (884279719003555 / 140737488355328)) frequency) t)
                  phase))
             (Finite 0)
      then amplitude else fneg amplitude)"
    by (simp add: SquareWave_def angle_def TwoPi64_eq)
next
  fix w y x s
  assume a: "round64 (884279719003555 / 140737488355328 * fr) = Finite w \<and>
      round64 (w * tr) = Finite y \<and> round64 (y + pr) = Finite x \<and>
      math_Sin env (Finite x) = Finite s"
  let ?th = "2 * pi * real_of_rat fr * real_of_rat tr + real_of_rat pr"
  let ?E = "real_of_rat (\<bar>tr\<bar> * (\<bar>fr\<bar> * (246 / 10 ^ 18) +
                       ulp (884279719003555 / 140737488355328 * fr) / 2) +
                     ulp (w * tr) / 2 + ulp (y + pr) / 2)"
  from a have w: "round64 (884279719003555 / 140737488355328 * fr) = Finite w"
    and y: "round64 (w * tr) = Finite y" and x: "round64 (y + pr) = Finite x"
    and s: "math_Sin env (Finite x) = Finite s" by simp_all
  have ang: "angle (Finite tr) (Finite fr) (Finite pr) = Finite x"
    unfolding angle_def TwoPi64_eq by (simp only: fmul.simps fadd.simps w y x)
  show sq: "SquareWave env (Finite tr) (Finite fr) amplitude (Finite pr) =
        (if 0 \<le> s then amplitude else fneg amplitude)"
    by (simp add: SquareWave_def ang s)
  show err: "\<bar>real_of_rat x - ?th\<bar> \<le> ?E" by (rule angle_error [OF w y x])
  fix e
  assume b: "\<bar>real_of_rat s - sin (real_of_rat x)\<bar> \<le> e \<and> e + ?E < \<bar>sin ?th\<bar>"
  have "\<bar>sin (real_of_rat x) - sin ?th\<bar> \<le> ?E"
    using sin_lipschitz [of "real_of_rat x" ?th] err by linarith
  with b have "\<bar>real_of_rat s - sin ?th\<bar> < \<bar>sin ?th\<bar>" by linarith
  then have "(0 \<le> real_of_rat s) = (0 \<le> sin ?th)" by linarith
  then have "(0 \<le> s) = (0 \<le> sin ?th)" by simp
  then show "SquareWave env (Finite tr) (Finite fr) amplitude (Finite pr) =
             (if 0 \<le> sin ?th then amplitude else fneg amplitude)"
    using sq by simp
qed

text \<open>
  Three runs. At sample 50 of the main program, \<open>t = 50/44100\<close> and 220 Hz, the sine of
  the specification is above \<open>9/10\<close>, far from zero, and the square wave is at the
  amplitude. At \<open>t = 0\<close> the computed sine is exactly zero and the square wave is at the
  amplitude. At \<open>t = - 1/2\<close> and 1 Hz the computed sine is negative and the square wave is
  at the negated amplitude.
\<close>

theorem SquareWave_follows_computed_sine_witness:
  "SquareWave example_env (Finite (5228668955133093 / 4611686018427387904)) (Finite 220)
     (Finite 26213) (Finite 0) = Finite 26213 \<and>
   9 / 10 \<le> sin (2 * pi * real_of_rat 220 *
             real_of_rat (5228668955133093 / 4611686018427387904) + real_of_rat 0) \<and>
   SquareWave example_env (Finite 0) (Finite 220) (Finite 26213) (Finite 0) = Finite 26213 \<and>
   SquareWave example_env (Finite (- (1 / 2))) (Finite 1) (Finite 26213) (Finite 0) =
     Finite (- 26213)"
proof -
  let ?T = "5228668955133093 / 4611686018427387904 :: rat"
  let ?W = "6079423068149441 / 4398046511104 :: rat"
  let ?V = "220568637393177 / 140737488355328 :: rat"
  let ?th = "2 * pi * real_of_rat 220 * real_of_rat ?T + real_of_rat 0"
  let ?E = "\<bar>?T\<bar> * (\<bar>220\<bar> * (246 / 10 ^ 18) +
              ulp (884279719003555 / 140737488355328 * 220) / 2) +
            ulp (?W * ?T) / 2 + ulp (?V + 0) / 2"
  have w: "round64 (884279719003555 / 140737488355328 * 220) = Finite ?W"
    using TwoPi64_times_220 unfolding TwoPi64_eq fmul.simps .
  have x: "round64 (?V + 0) = Finite ?V" using round64_angle_50_exact by simp
  obtain s where s: "math_Sin example_env (Finite ?V) = Finite s"
    and acc: "\<bar>real_of_rat s - sin (real_of_rat ?V)\<bar> \<le> 1 / 10 ^ 6"
    using example_env_sin_accurate [of ?V] by auto
  note th = SquareWave_follows_computed_sine [of example_env "Finite 0" "Finite 0"
      "Finite 26213" "Finite 0" 220 ?T 0, THEN conjunct2, THEN conjunct2, rule_format,
      OF conjI [OF w conjI [OF round64_angle_of_sample_50 conjI [OF x s]]]]
  have "real_of_rat ?E \<le> real_of_rat (1 / 10 ^ 9)"
    using angle_error_at_sample_50 by (simp only: of_rat_less_eq)
  then have E: "real_of_rat ?E \<le> 1 / 10 ^ 9" by (simp add: of_rat_divide of_rat_power)
  from th [THEN conjunct2, THEN conjunct1]
  have "\<bar>real_of_rat ?V - ?th\<bar> \<le> real_of_rat ?E" .
  then have "\<bar>sin (real_of_rat ?V) - sin ?th\<bar> \<le> 1 / 10 ^ 9"
    using sin_lipschitz [of "real_of_rat ?V" ?th] E by linarith
  moreover have "(1 :: real) / 10 ^ 9 \<le> 1 / 100000" by simp
  ultimately have big: "9 / 10 \<le> sin ?th" using sin_at_sample_50 by linarith
  have "(1 :: real) / 10 ^ 6 + 1 / 10 ^ 9 < 9 / 10" by simp
  then have m: "1 / 10 ^ 6 + real_of_rat ?E < \<bar>sin ?th\<bar>" using big E by linarith
  from th [THEN conjunct2, THEN conjunct2, rule_format, OF conjI [OF acc m]] big
  have 1: "SquareWave example_env (Finite ?T) (Finite 220) (Finite 26213) (Finite 0) =
           Finite 26213" by simp
  have y0: "round64 (?W * 0) = Finite 0" and x0: "round64 (0 + 0) = Finite 0"
    by (simp_all add: round64_zero)
  have s0: "math_Sin example_env (Finite 0) = Finite 0"
    by (simp add: example_env_def sin_poly_def round64_zero)
  from SquareWave_follows_computed_sine [of example_env "Finite 0" "Finite 0"
      "Finite 26213" "Finite 0" 220 0 0, THEN conjunct2, THEN conjunct2, rule_format,
      OF conjI [OF w conjI [OF y0 conjI [OF x0 s0]]], THEN conjunct1]
  have 2: "SquareWave example_env (Finite 0) (Finite 220) (Finite 26213) (Finite 0) =
           Finite 26213" by simp
  have w': "round64 (884279719003555 / 140737488355328 * 1) =
            Finite (884279719003555 / 140737488355328)" using round64_TwoPi64 by simp
  have y': "round64 (884279719003555 / 140737488355328 * - (1 / 2)) =
            Finite (- (884279719003555 / 281474976710656))" using round64_minus_Pi64 by simp
  have x': "round64 (- (884279719003555 / 281474976710656) + 0) =
            Finite (- (884279719003555 / 281474976710656))" using round64_minus_Pi64 by simp
  from example_env_sin_at_minus_Pi64 obtain s'
    where s': "math_Sin example_env (Finite (- (884279719003555 / 281474976710656))) = Finite s'"
      and neg: "s' < 0" by blast
  from SquareWave_follows_computed_sine [of example_env "Finite 0" "Finite 0"
      "Finite 26213" "Finite 0" 1 "- (1 / 2)" 0, THEN conjunct2, THEN conjunct2, rule_format,
      OF conjI [OF w' conjI [OF y' conjI [OF x' s']]], THEN conjunct1] neg
  have 3: "SquareWave example_env (Finite (- (1 / 2))) (Finite 1) (Finite 26213) (Finite 0) =
           Finite (- 26213)" by simp
  from 1 2 3 big show ?thesis by simp
qed

subsection \<open>The triangle wave\<close>

text \<open>A product of at least \<open>2 ^ - 1022\<close> does not round to zero.\<close>

lemma round64_pos:
  assumes "pow2 (- 1022) \<le> x" and "round64 x = Finite y"
  shows "0 < y"
proof -
  have x: "0 < x" using assms(1) pow2_pos [of "- 1022"] by linarith
  then have ne: "x \<noteq> 0" by simp
  have "pow2 (- 1074) = pow2 (- 1022) * pow2 (- 52)" by (simp add: pow2_add [symmetric])
  also have "\<dots> \<le> x * pow2 (- 52)"
    using assms(1) pow2_pos [of "- 52"] by (simp add: mult_right_mono)
  finally have "max (\<bar>x\<bar> * pow2 (- 52)) (pow2 (- 1074)) = x * pow2 (- 52)" using x by simp
  then have "ulp x \<le> x * pow2 (- 52)" using ulp_le [OF ne] by simp
  also have "\<dots> \<le> x" using x by (simp add: pow2_def mult_le_cancel_left1)
  finally have "ulp x / 2 < x" using x ulp_pos [of x] by linarith
  then show ?thesis using round64_error [OF assms(2)] by linarith
qed

text \<open>
  At \<open>t = 1/2\<close> and frequency 1 the computed argument is the double \<open>math.Pi\<close>, whose
  real sine is positive. In every environment whose \<open>math.Sin\<close> returns some \<open>s\<close> there
  and whose \<open>math.Asin(s)\<close> is a \<open>u\<close> between \<open>2 ^ - 1000\<close> and 2, the triangle wave of
  amplitude 1000 is positive.
\<close>

lemma TriangleWave_crossing_any_env:
  assumes s: "math_Sin env (Finite (884279719003555 / 281474976710656)) = Finite s"
    and u: "math_Asin env (Finite s) = Finite u"
    and lo: "pow2 (- 1000) \<le> u" and hi: "u \<le> 2"
  shows "\<exists>r. TriangleWave env (Finite (1 / 2)) (Finite 1) (Finite 1000) (Finite 0) = Finite r \<and>
             0 < r"
proof -
  have d: "round64 2000 = Finite 2000"
    using round64_of_int_exact [of 2000] by simp
  have "\<bar>2000 / (884279719003555 / 281474976710656) :: rat\<bar> \<le> 32768" by simp
  from round64_near [OF this] obtain q
    where q: "round64 (2000 / (884279719003555 / 281474976710656)) = Finite q"
      and "\<bar>q - 2000 / (884279719003555 / 281474976710656)\<bar> \<le> 1 / 10 ^ 9" by blast
  then have "\<bar>q - 562949953421312000 / 884279719003555\<bar> \<le> 1 / 1000000000" by simp
  then have qb: "1 \<le> q" "q \<le> 1000" by linarith+
  have up: "0 < u" using lo pow2_pos [of "- 1000"] by linarith
  have "pow2 (- 1022) \<le> pow2 (- 1000)" by (simp add: pow2_le_iff)
  also have "\<dots> \<le> 1 * u" using lo by simp
  also have "\<dots> \<le> q * u" using qb(1) up by (intro mult_right_mono) simp_all
  finally have small: "pow2 (- 1022) \<le> q * u" .
  have "q * u \<le> 1000 * 2" using qb hi up by (intro mult_mono) simp_all
  then have "\<bar>q * u\<bar> \<le> pow2 1023" using small pow2_pos [of "- 1022"] by (simp add: pow2_def)
  then obtain r where r: "round64 (q * u) = Finite r" using round64_finite by blast
  have "0 < r" by (rule round64_pos [OF small r])
  moreover have "TriangleWave env (Finite (1 / 2)) (Finite 1) (Finite 1000) (Finite 0) = Finite r"
  proof -
    have a: "fmul (Finite 2) (Finite 1000) = Finite 2000" using d by simp
    have b: "fdiv (Finite 2000) (Finite (884279719003555 / 281474976710656)) = Finite q"
      using q by simp
    have c: "fmul (Finite q) (Finite u) = Finite r" using r by simp
    show ?thesis by (simp only: TriangleWave_def angle_at_half Pi64_eq s u a b c)
  qed
  ultimately show ?thesis by blast
qed

lemma sin_poly_at_Pi64:
  "1 / 100000 \<le> sin_poly (884279719003555 / 281474976710656) \<and>
   sin_poly (884279719003555 / 281474976710656) \<le> 3 / 100000"
  by (simp add: sin_poly_def power_divide)

lemma example_env_sin_at_Pi64:
  "\<exists>s. math_Sin example_env (Finite (884279719003555 / 281474976710656)) = Finite s \<and>
        9 / 1000000 \<le> s \<and> s \<le> 31 / 1000000"
proof -
  let ?z = "sin_poly (884279719003555 / 281474976710656)"
  have "\<bar>?z\<bar> \<le> 32768" using sin_poly_at_Pi64 by linarith
  from round64_near [OF this] obtain s where s: "round64 ?z = Finite s"
    "\<bar>s - ?z\<bar> \<le> 1 / 10 ^ 9" by blast
  have "(1 :: rat) / 10 ^ 9 \<le> 1 / 1000000" by simp
  then have "9 / 1000000 \<le> s \<and> s \<le> 31 / 1000000" using s(2) sin_poly_at_Pi64 by linarith
  then show ?thesis using s(1) by (simp add: example_env_def)
qed

lemma example_env_asin_small:
  assumes "9 / 1000000 \<le> s" and "s \<le> 31 / 1000000"
  shows "\<exists>u. math_Asin example_env (Finite s) = Finite u \<and> pow2 (- 1000) \<le> u \<and> u \<le> 2"
proof -
  have s0: "0 \<le> s" "s \<le> 1" using assms by linarith+
  have p3: "0 \<le> s ^ 3" "s ^ 3 \<le> 1" and p5: "0 \<le> s ^ 5" "s ^ 5 \<le> 1"
    using s0 by (simp_all add: power_le_one)
  have b: "s \<le> asin_poly s" "asin_poly s \<le> s + 1"
    using p3 p5 by (simp_all add: asin_poly_def)
  then have "\<bar>asin_poly s\<bar> \<le> 32768" using s0 by linarith
  from round64_near [OF this] obtain u where u: "round64 (asin_poly s) = Finite u"
    "\<bar>u - asin_poly s\<bar> \<le> 1 / 10 ^ 9" by blast
  have "(1 :: rat) / 10 ^ 9 \<le> 1 / 1000000" by simp
  then have "8 / 1000000 \<le> u" "u \<le> 2" using u(2) b assms by linarith+
  moreover have "pow2 (- 1000) \<le> 8 / 1000000" by (simp add: pow2_def)
  ultimately have "pow2 (- 1000) \<le> u \<and> u \<le> 2" by linarith
  then show ?thesis using u(1) by (simp add: example_env_def)
qed

text \<open>
  Claim C6 says that the triangle wave is 0 wherever \<open>sin (2 * \<pi> * f * t + p) = 0\<close>. At
  \<open>t = 1/2\<close>, \<open>f = 1\<close>, \<open>p = 0\<close> that sine is \<open>sin \<pi> = 0\<close>, but the program does not
  return 0: its argument is the double \<open>math.Pi\<close>, which lies below \<open>\<pi>\<close>, where the
  sine is positive.
\<close>

theorem TriangleWave_zero_crossing_counterexample:
  "TriangleWave example_env (Finite (1 / 2)) (Finite 1) (Finite 1000) (Finite 0) \<noteq> Finite 0 \<and>
   sin (2 * pi * 1 * (1 / 2) + 0 :: real) = 0 \<and>
   angle (Finite (1 / 2)) (Finite 1) (Finite 0) = Finite (884279719003555 / 281474976710656) \<and>
   0 < sin (real_of_rat (884279719003555 / 281474976710656))"
proof -
  from example_env_sin_at_Pi64 obtain s
    where s: "math_Sin example_env (Finite (884279719003555 / 281474976710656)) = Finite s"
      and b: "9 / 1000000 \<le> s" "s \<le> 31 / 1000000" by blast
  from example_env_asin_small [OF b] obtain u
    where u: "math_Asin example_env (Finite s) = Finite u" "pow2 (- 1000) \<le> u" "u \<le> 2"
    by blast
  from TriangleWave_crossing_any_env [OF s u] obtain r
    where "TriangleWave example_env (Finite (1 / 2)) (Finite 1) (Finite 1000) (Finite 0) =
           Finite r" "0 < r" by blast
  then show ?thesis using angle_at_half sin_Pi64_pos by simp
qed

text \<open>
  The scale \<open>2 * amplitude / math.Pi\<close> times zero is zero as long as doubling the
  amplitude does not overflow. At the amplitude \<open>2 ^ 1023\<close> the double of the amplitude
  is infinite and the product with zero is not a number.
\<close>

lemma triangle_scale_times_zero:
  assumes "\<bar>a\<bar> \<le> pow2 1022"
  shows "fmul (fdiv (fmul (Finite 2) (Finite a)) (Finite (884279719003555 / 281474976710656)))
           (Finite 0) = Finite 0"
proof -
  have "\<bar>2 * a\<bar> \<le> pow2 1 * pow2 1022" using assms by (simp add: pow2_def)
  also have "\<dots> = pow2 1023" by (simp add: pow2_add [symmetric])
  finally obtain y where y: "round64 (2 * a) = Finite y" using round64_finite by blast
  have "\<bar>y\<bar> < pow2 1024" by (rule round64_magnitude [OF y])
  then have "\<bar>y\<bar> < pow2 1023 * 2" using pow2_add [of 1023 1] by (simp add: pow2_def)
  then have "\<bar>y / (884279719003555 / 281474976710656)\<bar> \<le> pow2 1023"
    by (simp add: abs_divide field_simps)
  then obtain z where z: "round64 (y / (884279719003555 / 281474976710656)) = Finite z"
    using round64_finite by blast
  show ?thesis using z by (simp add: y round64_zero)
qed

lemma TriangleWave_huge_amplitude:
  assumes "math_Sin env (angle t frequency phase) = Finite 0"
    and "math_Asin env (Finite 0) = Finite 0"
  shows "TriangleWave env t frequency (Finite (pow2 1023)) phase = NaN"
proof -
  have u: "ulp (2 * pow2 1023) = pow2 (1024 - 52)"
    using ulp_eqI [of 1024 "2 * pow2 1023"] by (simp add: pow2_def)
  have "round64 (2 * pow2 1023) = PosInf"
    unfolding round64_def u Let_def by (simp add: pow2_def round_half_even_def)
  then show ?thesis
    using assms by (simp add: TriangleWave_def Pi64_eq signed_inf_def)
qed

text \<open>
  Claim C6, as the code has it. \<open>TriangleWave\<close> returns the rounded product of the
  rounded \<open>2 * amplitude / math.Pi\<close> and \<open>math.Asin(math.Sin(x))\<close>, where \<open>x\<close> is the
  computed argument: the rounded sum of \<open>phase\<close> and the rounded product of \<open>t\<close> and the
  rounded product of \<open>frequency\<close> and the double \<open>2 * math.Pi\<close>. It is 0 when
  \<open>math.Sin(x)\<close> is exactly 0, \<open>math.Asin(0)\<close> is 0, as package \<open>math\<close> documents, and
  the amplitude is finite with \<open>|amplitude| \<le> 2 ^ 1022\<close>. For finite \<open>t\<close>, \<open>f\<close>, \<open>p\<close> whose
  three operations give finite \<open>w\<close>, \<open>y\<close>, \<open>x\<close>, and a finite \<open>math.Sin(x) = s\<close>:

    \<^item> \<open>x\<close> is within \<open>E = |t| * (|f| * 2.46 * 10 ^ - 16 + ulp (c * f) / 2) + ulp (w * t) / 2
      + ulp (y + p) / 2\<close> of \<open>2 * \<pi> * f * t + p\<close>, \<open>c\<close> being the double \<open>2 * math.Pi\<close>;

    \<^item> when \<open>s\<close> is within \<open>e\<close> of the sine of \<open>x\<close>, it is within \<open>e + E\<close> of
      \<open>sin (2 * \<pi> * f * t + p)\<close>; where that sine is 0 the computed sine is at most
      \<open>e + E\<close> in magnitude, and need not be 0.
\<close>

theorem TriangleWave_formula:
  "TriangleWave env t frequency amplitude phase =
     fmul (fdiv (fmul (Finite 2) amplitude) (Finite (884279719003555 / 281474976710656)))
       (math_Asin env (math_Sin env
          (fadd (fmul (fmul (Finite (884279719003555 / 140737488355328)) frequency) t)
             phase))) \<and>
   (\<forall>a. amplitude = Finite a \<and> \<bar>a\<bar> \<le> pow2 1022 \<and>
        math_Asin env (Finite 0) = Finite 0 \<and>
        math_Sin env
          (fadd (fmul (fmul (Finite (884279719003555 / 140737488355328)) frequency) t)
             phase) = Finite 0 \<longrightarrow>
        TriangleWave env t frequency amplitude phase = Finite 0) \<and>
   (\<forall>w y x s.
      round64 (884279719003555 / 140737488355328 * fr) = Finite w \<and>
      round64 (w * tr) = Finite y \<and> round64 (y + pr) = Finite x \<and>
      math_Sin env (Finite x) = Finite s \<longrightarrow>
      TriangleWave env (Finite tr) (Finite fr) amplitude (Finite pr) =
        fmul (fdiv (fmul (Finite 2) amplitude) (Finite (884279719003555 / 281474976710656)))
          (math_Asin env (Finite s)) \<and>
      \<bar>real_of_rat x - (2 * pi * real_of_rat fr * real_of_rat tr + real_of_rat pr)\<bar> \<le>
        real_of_rat (\<bar>tr\<bar> * (\<bar>fr\<bar> * (246 / 10 ^ 18) +
                       ulp (884279719003555 / 140737488355328 * fr) / 2) +
                     ulp (w * tr) / 2 + ulp (y + pr) / 2) \<and>
      (\<forall>e. \<bar>real_of_rat s - sin (real_of_rat x)\<bar> \<le> e \<longrightarrow>
           \<bar>real_of_rat s -
              sin (2 * pi * real_of_rat fr * real_of_rat tr + real_of_rat pr)\<bar> \<le>
           e + real_of_rat (\<bar>tr\<bar> * (\<bar>fr\<bar> * (246 / 10 ^ 18) +
                       ulp (884279719003555 / 140737488355328 * fr) / 2) +
                     ulp (w * tr) / 2 + ulp (y + pr) / 2)))"
proof (intro conjI allI impI)
  show f: "TriangleWave env t frequency amplitude phase =
     fmul (fdiv (fmul (Finite 2) amplitude) (Finite (884279719003555 / 281474976710656)))
       (math_Asin env (math_Sin env
          (fadd (fmul (fmul (Finite (884279719003555 / 140737488355328)) frequency) t)
             phase)))"
    by (simp only: TriangleWave_def angle_def TwoPi64_eq Pi64_eq)
  fix a
  assume "amplitude = Finite a \<and> \<bar>a\<bar> \<le> pow2 1022 \<and>
        math_Asin env (Finite 0) = Finite 0 \<and>
        math_Sin env
          (fadd (fmul (fmul (Finite (884279719003555 / 140737488355328)) frequency) t)
             phase) = Finite 0"
  then show "TriangleWave env t frequency amplitude phase = Finite 0"
    unfolding f using triangle_scale_times_zero [of a] by simp
next
  fix w y x s
  assume a: "round64 (884279719003555 / 140737488355328 * fr) = Finite w \<and>
      round64 (w * tr) = Finite y \<and> round64 (y + pr) = Finite x \<and>
      math_Sin env (Finite x) = Finite s"
  let ?th = "2 * pi * real_of_rat fr * real_of_rat tr + real_of_rat pr"
  let ?E = "real_of_rat (\<bar>tr\<bar> * (\<bar>fr\<bar> * (246 / 10 ^ 18) +
                       ulp (884279719003555 / 140737488355328 * fr) / 2) +
                     ulp (w * tr) / 2 + ulp (y + pr) / 2)"
  from a have w: "round64 (884279719003555 / 140737488355328 * fr) = Finite w"
    and y: "round64 (w * tr) = Finite y" and x: "round64 (y + pr) = Finite x"
    and s: "math_Sin env (Finite x) = Finite s" by simp_all
  have ang: "angle (Finite tr) (Finite fr) (Finite pr) = Finite x"
    unfolding angle_def TwoPi64_eq by (simp only: fmul.simps fadd.simps w y x)
  show "TriangleWave env (Finite tr) (Finite fr) amplitude (Finite pr) =
        fmul (fdiv (fmul (Finite 2) amplitude) (Finite (884279719003555 / 281474976710656)))
          (math_Asin env (Finite s))"
    by (simp only: TriangleWave_def ang s Pi64_eq)
  show err: "\<bar>real_of_rat x - ?th\<bar> \<le> ?E" by (rule angle_error [OF w y x])
  fix e
  assume b: "\<bar>real_of_rat s - sin (real_of_rat x)\<bar> \<le> e"
  have "\<bar>sin (real_of_rat x) - sin ?th\<bar> \<le> ?E"
    using sin_lipschitz [of "real_of_rat x" ?th] err by linarith
  with b show "\<bar>real_of_rat s - sin ?th\<bar> \<le> e + ?E" by linarith
qed

text \<open>
  Two runs. At \<open>t = 0\<close> the computed sine is exactly zero and so is the triangle wave.
  At \<open>t = 1/2\<close> and 1 Hz, where the sine of the specification is \<open>sin \<pi> = 0\<close>, the computed
  sine \<open>s\<close> is within \<open>32 * 10 ^ - 6\<close> of it, and the triangle wave is the scale times
  \<open>math.Asin(s)\<close>.
\<close>

theorem TriangleWave_formula_witness:
  "TriangleWave example_env (Finite 0) (Finite 220) (Finite 26213) (Finite 0) = Finite 0 \<and>
   (\<exists>s. math_Sin example_env (Finite (884279719003555 / 281474976710656)) = Finite s \<and>
        TriangleWave example_env (Finite (1 / 2)) (Finite 1) (Finite 1000) (Finite 0) =
          fmul (fdiv (fmul (Finite 2) (Finite 1000))
                  (Finite (884279719003555 / 281474976710656)))
            (math_Asin example_env (Finite s)) \<and>
        \<bar>real_of_rat s -
           sin (2 * pi * real_of_rat 1 * real_of_rat (1 / 2) + real_of_rat 0)\<bar> \<le>
          32 / 10 ^ 6)"
proof -
  let ?P = "884279719003555 / 281474976710656 :: rat"
  let ?E = "\<bar>1 / 2\<bar> * (\<bar>1\<bar> * (246 / 10 ^ 18) +
              ulp (884279719003555 / 140737488355328 * 1) / 2) +
            ulp (884279719003555 / 140737488355328 * (1 / 2)) / 2 + ulp (?P + 0) / 2 :: rat"
  have z: "math_Asin example_env (Finite 0) = Finite 0"
    by (simp add: example_env_def asin_poly_def round64_zero)
  have b: "\<bar>26213 :: rat\<bar> \<le> pow2 1022" by (simp add: pow2_def)
  have "math_Sin example_env (angle (Finite 0) (Finite 220) (Finite 0)) = Finite 0"
    by (simp add: angle_of_sample_0 example_env_def sin_poly_def round64_zero)
  then have c: "math_Sin example_env
      (fadd (fmul (fmul (Finite (884279719003555 / 140737488355328)) (Finite 220)) (Finite 0))
         (Finite 0)) = Finite 0"
    by (simp only: angle_def TwoPi64_eq)
  from TriangleWave_formula [of example_env "Finite 0" "Finite 220" "Finite 26213" "Finite 0",
      THEN conjunct2, THEN conjunct1, rule_format, OF conjI [OF refl conjI [OF b conjI [OF z c]]]]
  have 1: "TriangleWave example_env (Finite 0) (Finite 220) (Finite 26213) (Finite 0) = Finite 0" .
  have w: "round64 (884279719003555 / 140737488355328 * 1) =
           Finite (884279719003555 / 140737488355328)" using round64_TwoPi64 by simp
  have y: "round64 (884279719003555 / 140737488355328 * (1 / 2)) = Finite ?P"
    using round64_Pi64 by simp
  have x: "round64 (?P + 0) = Finite ?P" using round64_Pi64 by simp
  from example_env_sin_at_Pi64 obtain s
    where s: "math_Sin example_env (Finite ?P) = Finite s"
      and sb: "9 / 1000000 \<le> s" "s \<le> 31 / 1000000" by blast
  note th = TriangleWave_formula [of example_env "Finite 0" "Finite 0" "Finite 1000" "Finite 0"
      1 "1 / 2" 0, THEN conjunct2, THEN conjunct2, rule_format,
      OF conjI [OF w conjI [OF y conjI [OF x s]]]]
  have "real_of_rat (9 / 1000000) \<le> real_of_rat s" "real_of_rat s \<le> real_of_rat (31 / 1000000)"
    using sb by (simp_all only: of_rat_less_eq)
  then have sr: "9 / 1000000 \<le> real_of_rat s" "real_of_rat s \<le> 31 / 1000000"
    by (simp_all add: of_rat_divide)
  have "(123 :: real) / 10 ^ 18 \<le> 9 / 1000000" by simp
  then have acc: "\<bar>real_of_rat s - sin (real_of_rat ?P)\<bar> \<le> 31 / 10 ^ 6"
    using sr sin_Pi64_pos sin_Pi64_small by (simp add: abs_le_iff)
  have "real_of_rat ?E \<le> real_of_rat (1 / 10 ^ 9)"
    using angle_error_at_half by (simp only: of_rat_less_eq)
  then have E: "real_of_rat ?E \<le> 1 / 10 ^ 9" by (simp add: of_rat_divide of_rat_power)
  have "(31 :: real) / 10 ^ 6 + 1 / 10 ^ 9 \<le> 32 / 10 ^ 6" by simp
  with th [THEN conjunct2, THEN conjunct2, rule_format, OF acc] E
  have 2: "\<bar>real_of_rat s -
           sin (2 * pi * real_of_rat 1 * real_of_rat (1 / 2) + real_of_rat 0)\<bar> \<le> 32 / 10 ^ 6"
    by linarith
  from 1 s th [THEN conjunct1] 2 show ?thesis by blast
qed

end
